theory Spec2Isabelle
  imports Main
begin

section \<open>The order transaction core of the dairy-farm storefront\<close>

text \<open>
  A shallow embedding of the order routes of \<^verbatim>\<open>src/server/routes/products.js\<close>
  (the second module of that file, mounted under \<^verbatim>\<open>/api/orders\<close>) over the tables of
  the schema in \<^verbatim>\<open>src/unnamed/part_001\<close>.

  \<^item> A table is the list of its rows, in insertion order. \<^verbatim>\<open>SELECT ... WHERE c\<close> is
    \<open>filter\<close>, \<^verbatim>\<open>UPDATE ... SET ... WHERE c\<close> is \<open>map\<close> with the condition inside,
    \<^verbatim>\<open>INSERT\<close> appends a row.
  \<^item> \<^verbatim>\<open>DECIMAL(10,2)\<close> amounts (\<open>price\<close>, \<open>total_amount\<close>) are integers counting
    hundredths of a rupee, so \<^verbatim>\<open>Math.round(totalAmount * 100)\<close> is the amount itself.
    \<^verbatim>\<open>INT\<close> columns are signed in the schema (\<open>stock\<close> has no \<^verbatim>\<open>UNSIGNED\<close> and
    no \<^verbatim>\<open>CHECK\<close>), so they are \<open>int\<close>; the column ranges are not modelled.
  \<^item> The timestamps, the columns the order routes never read or write
    (\<open>description\<close>, \<open>image_url\<close>, \<open>category\<close>, \<open>unit\<close>, \<open>item_id\<close>) and the
    \<open>users\<close> table are left out.
  \<^item> A handler takes the database and returns its response together with the database it
    leaves behind. A transaction works on a copy; \<open>rollback\<close> gives back the
    database as it was at \<^verbatim>\<open>beginTransaction\<close>, \<open>commit\<close> the working copy. (The
    copy given back includes the \<^verbatim>\<open>AUTO_INCREMENT\<close> counter; a storage engine that keeps
    the counter advanced after a rollback only leaves a gap in the ids.)
  \<^item> Every SQL statement is taken to succeed: a lost connection or a violated constraint,
    which would throw into the handler's \<^verbatim>\<open>catch\<close>, is not modelled.
  \<^item> What the handlers get from outside is a parameter: the Razorpay client
    (\<^verbatim>\<open>razorpay.orders.create\<close>, \<open>None\<close> when it throws), the HMAC of
    \<^verbatim>\<open>crypto.createHmac('sha256', key).update(msg).digest('hex')\<close>, the environment
    variables, and the errors express-validator recorded on the request.
\<close>

subsection \<open>Tables\<close>

datatype payment_status = Pending | Completed | Failed | Refunded

datatype order_status = Placed | Confirmed | Processing | Shipped | Delivered | Cancelled

record product_row =
  product_id :: nat
  name :: string
  price :: int
  stock :: int
  is_active :: bool

record order_row =
  order_id :: nat
  user_id :: nat
  total_amount :: int
  payment_status :: payment_status
  payment_id :: "string option"
  order_status :: order_status
  delivery_address :: string
  phone :: string

record order_item_row =
  oi_order_id :: nat
  oi_product_id :: nat
  oi_quantity :: int
  oi_price :: int

text \<open>\<open>orders_auto_increment\<close> is the \<^verbatim>\<open>AUTO_INCREMENT\<close> counter of \<open>orders.order_id\<close>:
  the id the next \<^verbatim>\<open>INSERT\<close> gets (\<^verbatim>\<open>orderResult.insertId\<close>).\<close>

record database =
  products :: "product_row list"
  orders :: "order_row list"
  order_items :: "order_item_row list"
  orders_auto_increment :: nat

subsection \<open>Requests, responses, collaborators\<close>

record cart_item =
  ci_product_id :: nat
  ci_quantity :: int

text \<open>\<open>req_user_id\<close> is \<^verbatim>\<open>req.user.user_id\<close> (set by \<^verbatim>\<open>verifyToken\<close>);
  \<open>validation_errors\<close> is \<^verbatim>\<open>validationResult(req)\<close>, what the \<^verbatim>\<open>orderValidation\<close>
  middleware recorded before the handler runs.\<close>

record order_request =
  req_user_id :: nat
  items :: "cart_item list"
  req_delivery_address :: string
  req_phone :: string
  validation_errors :: "string list"

text \<open>An element of the handler's \<^verbatim>\<open>orderItems\<close> array.\<close>

record order_line =
  ol_product_id :: nat
  ol_quantity :: int
  ol_price :: int
  ol_name :: string

text \<open>The argument of \<^verbatim>\<open>razorpay.orders.create\<close>; the receipt \<^verbatim>\<open>order_${orderId}\<close> is
  kept as the order id it is built from.\<close>

record razorpay_order_request =
  rq_amount :: int
  rq_currency :: string
  rq_receipt_order_id :: nat
  rq_notes_order_id :: nat
  rq_notes_user_id :: nat

record razorpay_order =
  rz_id :: string
  rz_amount :: int
  rz_currency :: string

record environment =
  RAZORPAY_KEY_ID :: string
  RAZORPAY_KEY_SECRET :: string

text \<open>The \<open>data\<close> object of the 201 response of \<^verbatim>\<open>POST /api/orders/create\<close>.\<close>

record order_created =
  oc_order_id :: nat
  oc_total_amount :: int
  oc_items :: "order_line list"
  oc_razorpay_order :: razorpay_order
  oc_razorpay_key_id :: string

record payment_callback =
  razorpay_order_id :: string
  razorpay_payment_id :: string
  razorpay_signature :: string
  cb_order_id :: nat

text \<open>The failure responses, one constructor per \<^verbatim>\<open>res.status(...).json({success: false, ...})\<close>
  of the order routes, with the values its message interpolates.\<close>

datatype api_error =
    ValidationFailed "string list"
  | ProductNotFound nat
  | InsufficientStock string int
  | ServerErrorCreatingOrder
  | InvalidPaymentSignature
  | OrderNotFound
  | OrderCannotBeCancelled

fun http_status :: "api_error \<Rightarrow> nat" where
  "http_status (ValidationFailed _) = 400"
| "http_status (ProductNotFound _) = 400"
| "http_status (InsufficientStock _ _) = 400"
| "http_status ServerErrorCreatingOrder = 500"
| "http_status InvalidPaymentSignature = 400"
| "http_status OrderNotFound = 404"
| "http_status OrderCannotBeCancelled = 400"

text \<open>The success responses that carry only a message.\<close>

datatype api_ok = PaymentVerified | OrderCancelled | OrderStatusUpdated

subsection \<open>Transactions\<close>

definition rollback :: "database \<Rightarrow> database \<Rightarrow> database" where
  "rollback at_begin working = at_begin"

definition commit :: "database \<Rightarrow> database \<Rightarrow> database" where
  "commit at_begin working = working"

subsection \<open>The SQL statements\<close>

text \<open>\<^verbatim>\<open>SELECT product_id, name, price, stock FROM products WHERE product_id = ? AND is_active = true\<close>\<close>

definition select_active_product :: "product_row list \<Rightarrow> nat \<Rightarrow> product_row list" where
  "select_active_product ps pid = filter (\<lambda>p. product_id p = pid \<and> is_active p) ps"

text \<open>\<^verbatim>\<open>UPDATE products SET stock = stock - ? WHERE product_id = ?\<close>\<close>

definition decrement_stock :: "product_row list \<Rightarrow> int \<Rightarrow> nat \<Rightarrow> product_row list" where
  "decrement_stock ps q pid =
     map (\<lambda>p. if product_id p = pid then p\<lparr>stock := stock p - q\<rparr> else p) ps"

text \<open>\<^verbatim>\<open>UPDATE products SET stock = stock + ? WHERE product_id = ?\<close>\<close>

definition increment_stock :: "product_row list \<Rightarrow> int \<Rightarrow> nat \<Rightarrow> product_row list" where
  "increment_stock ps q pid =
     map (\<lambda>p. if product_id p = pid then p\<lparr>stock := stock p + q\<rparr> else p) ps"

text \<open>\<^verbatim>\<open>INSERT INTO orders (user_id, total_amount, delivery_address, phone) VALUES (?, ?, ?, ?)\<close>:
  the other columns take the defaults of the schema (\<open>payment_status\<close> pending,
  \<open>payment_id\<close> null, \<open>order_status\<close> placed).\<close>

definition insert_order :: "database \<Rightarrow> nat \<Rightarrow> int \<Rightarrow> string \<Rightarrow> string \<Rightarrow> nat \<times> database" where
  "insert_order db uid totalAmount addr ph =
     (let insertId = orders_auto_increment db
      in (insertId,
          db\<lparr>orders := orders db @
                [\<lparr>order_id = insertId, user_id = uid, total_amount = totalAmount,
                  payment_status = Pending, payment_id = None, order_status = Placed,
                  delivery_address = addr, phone = ph\<rparr>],
             orders_auto_increment := Suc insertId\<rparr>))"

text \<open>\<^verbatim>\<open>INSERT INTO order_items (order_id, product_id, quantity, price) VALUES (?, ?, ?, ?)\<close>\<close>

definition order_item_of :: "nat \<Rightarrow> order_line \<Rightarrow> order_item_row" where
  "order_item_of orderId item =
     \<lparr>oi_order_id = orderId, oi_product_id = ol_product_id item,
      oi_quantity = ol_quantity item, oi_price = ol_price item\<rparr>"

text \<open>\<^verbatim>\<open>SELECT * FROM orders WHERE order_id = ? AND user_id = ?\<close>\<close>

definition select_order :: "order_row list \<Rightarrow> nat \<Rightarrow> nat \<Rightarrow> order_row list" where
  "select_order os oid uid = filter (\<lambda>order. order_id order = oid \<and> user_id order = uid) os"

text \<open>\<^verbatim>\<open>SELECT product_id, quantity FROM order_items WHERE order_id = ?\<close>\<close>

definition select_order_items :: "order_item_row list \<Rightarrow> nat \<Rightarrow> order_item_row list" where
  "select_order_items ois oid = filter (\<lambda>item. oi_order_id item = oid) ois"

text \<open>\<^verbatim>\<open>UPDATE orders SET order_status = ? WHERE order_id = ?\<close>\<close>

definition update_order_status :: "order_row list \<Rightarrow> order_status \<Rightarrow> nat \<Rightarrow> order_row list" where
  "update_order_status os st oid =
     map (\<lambda>order. if order_id order = oid then order\<lparr>order_status := st\<rparr> else order) os"

text \<open>\<^verbatim>\<open>UPDATE orders SET payment_status = ?, payment_id = ?, order_status = ?
  WHERE order_id = ? AND user_id = ?\<close>\<close>

definition update_order_payment ::
  "order_row list \<Rightarrow> payment_status \<Rightarrow> string \<Rightarrow> order_status \<Rightarrow> nat \<Rightarrow> nat \<Rightarrow> order_row list" where
  "update_order_payment os ps pay st oid uid =
     map (\<lambda>order. if order_id order = oid \<and> user_id order = uid
                  then order\<lparr>payment_status := ps, payment_id := Some pay, order_status := st\<rparr>
                  else order) os"

subsection \<open>\<^verbatim>\<open>POST /api/orders/create\<close>\<close>

text \<open>The first loop: every cart line is checked against the product row read from the
  table as it is when the handler starts (no statement has changed it yet), and the running
  total and the \<^verbatim>\<open>orderItems\<close> array are built. The first failing line ends the handler.\<close>

fun validate_items ::
  "product_row list \<Rightarrow> cart_item list \<Rightarrow> int \<Rightarrow> order_line list \<Rightarrow> api_error + (int \<times> order_line list)" where
  "validate_items ps [] totalAmount orderItems = Inr (totalAmount, orderItems)"
| "validate_items ps (item # rest) totalAmount orderItems =
     (case select_active_product ps (ci_product_id item) of
        [] \<Rightarrow> Inl (ProductNotFound (ci_product_id item))
      | productData # _ \<Rightarrow>
          if stock productData < ci_quantity item
          then Inl (InsufficientStock (name productData) (stock productData))
          else validate_items ps rest
                 (totalAmount + price productData * ci_quantity item)
                 (orderItems @
                    [\<lparr>ol_product_id = ci_product_id item, ol_quantity = ci_quantity item,
                      ol_price = price productData, ol_name = name productData\<rparr>]))"

text \<open>The second loop: one \<^verbatim>\<open>INSERT INTO order_items\<close> and one stock \<^verbatim>\<open>UPDATE\<close> per line.\<close>

fun insert_items :: "database \<Rightarrow> nat \<Rightarrow> order_line list \<Rightarrow> database" where
  "insert_items db orderId [] = db"
| "insert_items db orderId (item # rest) =
     insert_items
       (db\<lparr>order_items := order_items db @ [order_item_of orderId item],
           products := decrement_stock (products db) (ol_quantity item) (ol_product_id item)\<rparr>)
       orderId rest"

definition placeOrder ::
  "environment \<Rightarrow> (razorpay_order_request \<Rightarrow> razorpay_order option) \<Rightarrow> database \<Rightarrow> order_request
     \<Rightarrow> (api_error + order_created) \<times> database" where
  "placeOrder env razorpay_orders_create db req =
     (if validation_errors req \<noteq> []
      then (Inl (ValidationFailed (validation_errors req)), rollback db db)
      else
        case validate_items (products db) (items req) 0 [] of
          Inl err \<Rightarrow> (Inl err, rollback db db)
        | Inr (totalAmount, orderItems) \<Rightarrow>
            (let (orderId, db1) = insert_order db (req_user_id req) totalAmount
                                    (req_delivery_address req) (req_phone req);
                 db2 = insert_items db1 orderId orderItems
             in (case razorpay_orders_create
                         \<lparr>rq_amount = totalAmount, rq_currency = ''INR'',
                          rq_receipt_order_id = orderId, rq_notes_order_id = orderId,
                          rq_notes_user_id = req_user_id req\<rparr> of
                   None \<Rightarrow> (Inl ServerErrorCreatingOrder, rollback db db2)
                 | Some razorpayOrder \<Rightarrow>
                     (Inr \<lparr>oc_order_id = orderId, oc_total_amount = totalAmount,
                           oc_items = orderItems,
                           oc_razorpay_order =
                             \<lparr>rz_id = rz_id razorpayOrder, rz_amount = rz_amount razorpayOrder,
                              rz_currency = rz_currency razorpayOrder\<rparr>,
                           oc_razorpay_key_id = RAZORPAY_KEY_ID env\<rparr>,
                      commit db db2))))"

subsection \<open>\<^verbatim>\<open>POST /api/orders/verify-payment\<close>\<close>

text \<open>The update runs outside any transaction (\<^verbatim>\<open>executeQuery\<close> on the pool), and the
  response does not look at the number of rows it changed.\<close>

definition verifyPayment ::
  "(string \<Rightarrow> string \<Rightarrow> string) \<Rightarrow> environment \<Rightarrow> database \<Rightarrow> nat \<Rightarrow> payment_callback
     \<Rightarrow> (api_error + api_ok) \<times> database" where
  "verifyPayment hmac_sha256_hex env db uid body =
     (let expectedSignature =
            hmac_sha256_hex (RAZORPAY_KEY_SECRET env)
              (razorpay_order_id body @ ''|'' @ razorpay_payment_id body)
      in if expectedSignature \<noteq> razorpay_signature body
         then (Inl InvalidPaymentSignature, db)
         else (Inr PaymentVerified,
               db\<lparr>orders := update_order_payment (orders db) Completed (razorpay_payment_id body)
                               Confirmed (cb_order_id body) uid\<rparr>))"

subsection \<open>\<^verbatim>\<open>PUT /api/orders/:id/cancel\<close>\<close>

fun restore_stock :: "product_row list \<Rightarrow> order_item_row list \<Rightarrow> product_row list" where
  "restore_stock ps [] = ps"
| "restore_stock ps (item # rest) =
     restore_stock (increment_stock ps (oi_quantity item) (oi_product_id item)) rest"

definition cancelOrder :: "database \<Rightarrow> nat \<Rightarrow> nat \<Rightarrow> (api_error + api_ok) \<times> database" where
  "cancelOrder db uid oid =
     (case select_order (orders db) oid uid of
        [] \<Rightarrow> (Inl OrderNotFound, rollback db db)
      | orderData # _ \<Rightarrow>
          if order_status orderData \<notin> {Placed, Confirmed}
          then (Inl OrderCannotBeCancelled, rollback db db)
          else
            let orderItems = select_order_items (order_items db) oid;
                db1 = db\<lparr>products := restore_stock (products db) orderItems\<rparr>;
                db2 = db1\<lparr>orders := update_order_status (orders db1) Cancelled oid\<rparr>
            in (Inr OrderCancelled, commit db db2))"

subsection \<open>\<^verbatim>\<open>PUT /api/orders/admin/:id/status\<close>\<close>

text \<open>\<^verbatim>\<open>body('status').isIn([...])\<close>: the six names of the enum, anything else is refused.\<close>

definition status_of_string :: "string \<Rightarrow> order_status option" where
  "status_of_string s =
     (if s = ''placed'' then Some Placed
      else if s = ''confirmed'' then Some Confirmed
      else if s = ''processing'' then Some Processing
      else if s = ''shipped'' then Some Shipped
      else if s = ''delivered'' then Some Delivered
      else if s = ''cancelled'' then Some Cancelled
      else None)"

text \<open>\<open>affectedRows\<close> counts the rows the \<^verbatim>\<open>WHERE\<close> clause matches; either way of counting
  leaves the same table behind.\<close>

definition adminUpdateStatus :: "database \<Rightarrow> nat \<Rightarrow> string \<Rightarrow> (api_error + api_ok) \<times> database" where
  "adminUpdateStatus db oid status =
     (case status_of_string status of
        None \<Rightarrow> (Inl (ValidationFailed [''Invalid status'']), db)
      | Some st \<Rightarrow>
          let affectedRows = length (filter (\<lambda>order. order_id order = oid) (orders db));
              db1 = db\<lparr>orders := update_order_status (orders db) st oid\<rparr>
          in if affectedRows = 0 then (Inl OrderNotFound, db1) else (Inr OrderStatusUpdated, db1))"

subsection \<open>Notions the properties are stated with\<close>

text \<open>The row the handler works with after the product \<^verbatim>\<open>SELECT\<close>: \<^verbatim>\<open>product[0]\<close> when
  \<^verbatim>\<open>product.length\<close> is not zero.\<close>

definition read_product :: "product_row list \<Rightarrow> nat \<Rightarrow> product_row option" where
  "read_product ps pid =
     (case select_active_product ps pid of [] \<Rightarrow> None | productData # _ \<Rightarrow> Some productData)"

text \<open>A cart line passes the first loop: its product is found active and the stock read is
  not below the quantity.\<close>

definition line_available :: "product_row list \<Rightarrow> cart_item \<Rightarrow> bool" where
  "line_available ps item =
     (case read_product ps (ci_product_id item) of
        None \<Rightarrow> False
      | Some productData \<Rightarrow> ci_quantity item \<le> stock productData)"

text \<open>The \<^verbatim>\<open>orderItems\<close> entry and the \<open>order_items\<close> row of a cart line, with the price
  of the row read.\<close>

definition frozen_line :: "product_row list \<Rightarrow> cart_item \<Rightarrow> order_line" where
  "frozen_line ps item =
     (case read_product ps (ci_product_id item) of
        None \<Rightarrow> \<lparr>ol_product_id = ci_product_id item, ol_quantity = ci_quantity item,
                  ol_price = 0, ol_name = []\<rparr>
      | Some productData \<Rightarrow>
          \<lparr>ol_product_id = ci_product_id item, ol_quantity = ci_quantity item,
           ol_price = price productData, ol_name = name productData\<rparr>)"

definition frozen_item :: "product_row list \<Rightarrow> nat \<Rightarrow> cart_item \<Rightarrow> order_item_row" where
  "frozen_item ps orderId item =
     \<lparr>oi_order_id = orderId, oi_product_id = ci_product_id item, oi_quantity = ci_quantity item,
      oi_price = (case read_product ps (ci_product_id item) of
                    None \<Rightarrow> 0 | Some productData \<Rightarrow> price productData)\<rparr>"

text \<open>Quantities per product, over a cart, over \<^verbatim>\<open>orderItems\<close> and over line items.\<close>

definition cart_quantity :: "nat \<Rightarrow> cart_item list \<Rightarrow> int" where
  "cart_quantity pid its =
     sum_list (map ci_quantity (filter (\<lambda>item. ci_product_id item = pid) its))"

definition line_quantity :: "nat \<Rightarrow> order_line list \<Rightarrow> int" where
  "line_quantity pid ls =
     sum_list (map ol_quantity (filter (\<lambda>item. ol_product_id item = pid) ls))"

definition item_quantity :: "nat \<Rightarrow> order_item_row list \<Rightarrow> int" where
  "item_quantity pid ois =
     sum_list (map oi_quantity (filter (\<lambda>item. oi_product_id item = pid) ois))"

text \<open>Sums of quantity times price.\<close>

definition lines_total :: "order_line list \<Rightarrow> int" where
  "lines_total ls = sum_list (map (\<lambda>item. ol_price item * ol_quantity item) ls)"

definition items_total :: "order_item_row list \<Rightarrow> int" where
  "items_total ois = sum_list (map (\<lambda>item. oi_quantity item * oi_price item) ois)"

text \<open>The request \<open>placeOrder\<close> sends to the gateway for a cart that passed the first loop.\<close>

definition payment_request :: "database \<Rightarrow> order_request \<Rightarrow> razorpay_order_request" where
  "payment_request db req =
     \<lparr>rq_amount = lines_total (map (frozen_line (products db)) (items req)),
      rq_currency = ''INR'',
      rq_receipt_order_id = orders_auto_increment db,
      rq_notes_order_id = orders_auto_increment db,
      rq_notes_user_id = req_user_id req\<rparr>"

text \<open>What the schema guarantees of the keys: \<open>product_id\<close> and \<open>order_id\<close> are primary
  keys, every \<open>order_id\<close> was handed out by the \<^verbatim>\<open>AUTO_INCREMENT\<close> counter, and
  \<open>order_items.order_id\<close> is a foreign key into \<open>orders\<close>.\<close>

definition keys_consistent :: "database \<Rightarrow> bool" where
  "keys_consistent db \<longleftrightarrow>
     distinct (map product_id (products db)) \<and>
     distinct (map order_id (orders db)) \<and>
     list_all (\<lambda>order. order_id order < orders_auto_increment db) (orders db) \<and>
     list_all (\<lambda>item. oi_order_id item \<in> set (map order_id (orders db))) (order_items db)"

text \<open>The decrement as the specification words it ("decrement \<open>Product.stock\<close> by quantity
  for each line, conditioned on \<open>stock >= quantity\<close>"), to compare \<open>decrement_stock\<close> with:
  \<^verbatim>\<open>UPDATE products SET stock = stock - ? WHERE product_id = ? AND stock >= ?\<close>.\<close>

definition spec_conditional_decrement_stock ::
  "product_row list \<Rightarrow> int \<Rightarrow> nat \<Rightarrow> product_row list" where
  "spec_conditional_decrement_stock ps q pid =
     map (\<lambda>p. if product_id p = pid \<and> stock p \<ge> q then p\<lparr>stock := stock p - q\<rparr> else p) ps"

text \<open>One request to one of the four routes that write to \<open>orders\<close>, with any arguments and
  any behaviour of the gateway and of the HMAC.\<close>

inductive step :: "database \<Rightarrow> database \<Rightarrow> bool" where
  step_placeOrder: "step db (snd (placeOrder env razorpay_orders_create db req))"
| step_verifyPayment: "step db (snd (verifyPayment hmac_sha256_hex env db uid body))"
| step_cancelOrder: "step db (snd (cancelOrder db uid oid))"
| step_adminUpdateStatus: "step db (snd (adminUpdateStatus db oid status))"

text \<open>The states the routes can bring about, starting from a database without orders (the
  schema script creates none), whatever its products.\<close>

inductive reachable :: "database \<Rightarrow> bool" where
  reachable_initial: "orders db = [] \<Longrightarrow> order_items db = [] \<Longrightarrow> reachable db"
| reachable_step: "reachable db \<Longrightarrow> step db db' \<Longrightarrow> reachable db'"

text \<open>The moves of \<open>payment_status\<close> the specification allows between two states.\<close>

definition payment_move_allowed :: "payment_status \<Rightarrow> payment_status \<Rightarrow> bool" where
  "payment_move_allowed before after \<longleftrightarrow>
     after = before \<or> (before = Pending \<and> (after = Completed \<or> after = Failed))"

subsection \<open>Example data\<close>

text \<open>The scenario of the specification: product 7 at 60.00 with five in stock, and a cart
  of three of it.\<close>

definition milk :: product_row where
  "milk = \<lparr>product_id = 7, name = ''Milk'', price = 6000, stock = 5, is_active = True\<rparr>"

definition shop :: database where
  "shop = \<lparr>products = [milk], orders = [], order_items = [], orders_auto_increment = 1\<rparr>"

definition cart_of_three :: order_request where
  "cart_of_three =
     \<lparr>req_user_id = 2, items = [\<lparr>ci_product_id = 7, ci_quantity = 3\<rparr>],
      req_delivery_address = ''12 Dairy Lane, Pune'', req_phone = ''9876543210'',
      validation_errors = []\<rparr>"

text \<open>The same product on two lines: each line passes \<^verbatim>\<open>orderValidation\<close>.\<close>

definition cart_of_three_twice :: order_request where
  "cart_of_three_twice =
     cart_of_three\<lparr>items := [\<lparr>ci_product_id = 7, ci_quantity = 3\<rparr>,
                             \<lparr>ci_product_id = 7, ci_quantity = 3\<rparr>]\<rparr>"

definition cart_of_six :: order_request where
  "cart_of_six = cart_of_three\<lparr>items := [\<lparr>ci_product_id = 7, ci_quantity = 6\<rparr>]\<rparr>"

definition gateway_up :: "razorpay_order_request \<Rightarrow> razorpay_order option" where
  "gateway_up rq = Some \<lparr>rz_id = ''order_A1'', rz_amount = rq_amount rq, rz_currency = rq_currency rq\<rparr>"

definition gateway_down :: "razorpay_order_request \<Rightarrow> razorpay_order option" where
  "gateway_down rq = None"

definition test_env :: environment where
  "test_env = \<lparr>RAZORPAY_KEY_ID = ''rzp_test'', RAZORPAY_KEY_SECRET = ''s3''\<rparr>"

text \<open>A stand-in for the HMAC in the examples (the properties hold for any function).\<close>

definition toy_hmac :: "string \<Rightarrow> string \<Rightarrow> string" where
  "toy_hmac key msg = key @ ''#'' @ msg"

definition good_callback :: payment_callback where
  "good_callback =
     \<lparr>razorpay_order_id = ''order_A1'', razorpay_payment_id = ''pay_9'',
      razorpay_signature = ''s3#order_A1|pay_9'', cb_order_id = 1\<rparr>"

definition forged_callback :: payment_callback where
  "forged_callback = good_callback\<lparr>razorpay_signature := ''00''\<rparr>"

text \<open>The shop after user 2 ordered three, and that order in later stages.\<close>

definition shop_ordered :: database where
  "shop_ordered = snd (placeOrder test_env gateway_up shop cart_of_three)"

definition shop_paid :: database where
  "shop_paid = snd (verifyPayment toy_hmac test_env shop_ordered 2 good_callback)"

definition shop_shipped :: database where
  "shop_shipped = snd (adminUpdateStatus shop_paid 1 ''shipped'')"

section \<open>Properties\<close>

subsection \<open>\<^verbatim>\<open>POST /api/orders/create\<close>: validation and insertion in closed form\<close>

lemma validate_items_Cons:
  "validate_items ps (item # rest) t acc =
     (case read_product ps (ci_product_id item) of
        None \<Rightarrow> Inl (ProductNotFound (ci_product_id item))
      | Some p \<Rightarrow>
          if stock p < ci_quantity item then Inl (InsufficientStock (name p) (stock p))
          else validate_items ps rest (t + price p * ci_quantity item) (acc @ [frozen_line ps item]))"
  by (simp add: read_product_def frozen_line_def split: list.splits)

lemma frozen_line_price:
  "read_product ps (ci_product_id item) = Some p \<Longrightarrow>
     ol_price (frozen_line ps item) * ol_quantity (frozen_line ps item) = price p * ci_quantity item"
  by (simp add: frozen_line_def)

lemma validate_items_Inr:
  "validate_items ps its t acc = Inr (t', ls) \<Longrightarrow>
     list_all (line_available ps) its \<and> ls = acc @ map (frozen_line ps) its \<and>
     t' = t + lines_total (map (frozen_line ps) its)"
proof (induction its arbitrary: t acc)
  case Nil
  then show ?case by (simp add: lines_total_def)
next
  case (Cons item rest)
  from Cons.prems obtain p where
    rd: "read_product ps (ci_product_id item) = Some p" and
    ok: "\<not> stock p < ci_quantity item" and
    rec: "validate_items ps rest (t + price p * ci_quantity item) (acc @ [frozen_line ps item])
            = Inr (t', ls)"
    by (auto simp: validate_items_Cons simp del: validate_items.simps
             split: option.splits if_splits)
  from Cons.IH [OF rec] have
    ih: "list_all (line_available ps) rest"
        "ls = (acc @ [frozen_line ps item]) @ map (frozen_line ps) rest"
        "t' = t + price p * ci_quantity item + lines_total (map (frozen_line ps) rest)"
    by simp_all
  have "line_available ps item" using rd ok by (simp add: line_available_def)
  moreover have "lines_total (map (frozen_line ps) (item # rest)) =
      price p * ci_quantity item + lines_total (map (frozen_line ps) rest)"
    using frozen_line_price [OF rd] by (simp add: lines_total_def)
  ultimately show ?case using ih by simp
qed

lemma validate_items_available:
  "list_all (line_available ps) its \<Longrightarrow>
     validate_items ps its t acc =
       Inr (t + lines_total (map (frozen_line ps) its), acc @ map (frozen_line ps) its)"
proof (induction its arbitrary: t acc)
  case Nil
  then show ?case by (simp add: lines_total_def)
next
  case (Cons item rest)
  from Cons.prems have rest: "list_all (line_available ps) rest" and "line_available ps item"
    by simp_all
  then obtain p where
    rd: "read_product ps (ci_product_id item) = Some p" and
    ok: "ci_quantity item \<le> stock p"
    by (auto simp: line_available_def split: option.splits)
  have "lines_total (map (frozen_line ps) (item # rest)) =
      price p * ci_quantity item + lines_total (map (frozen_line ps) rest)"
    using frozen_line_price [OF rd] by (simp add: lines_total_def)
  then show ?case
    using rd ok Cons.IH [OF rest]
    by (simp add: validate_items_Cons del: validate_items.simps)
qed

lemma validate_items_Inl:
  "validate_items ps its t acc = Inl err \<Longrightarrow>
     \<exists>item \<in> set its.
        (read_product ps (ci_product_id item) = None \<and> err = ProductNotFound (ci_product_id item)) \<or>
        (\<exists>p. read_product ps (ci_product_id item) = Some p \<and> stock p < ci_quantity item \<and>
             err = InsufficientStock (name p) (stock p))"
proof (induction its arbitrary: t acc)
  case Nil
  then show ?case by simp
next
  case (Cons item rest)
  show ?case
  proof (cases "read_product ps (ci_product_id item)")
    case None
    with Cons.prems show ?thesis
      by (simp add: validate_items_Cons del: validate_items.simps)
  next
    case (Some p)
    show ?thesis
    proof (cases "stock p < ci_quantity item")
      case True
      with Some Cons.prems show ?thesis
        by (simp add: validate_items_Cons del: validate_items.simps)
    next
      case False
      with Some Cons.prems have
        "validate_items ps rest (t + price p * ci_quantity item) (acc @ [frozen_line ps item]) = Inl err"
        by (simp add: validate_items_Cons del: validate_items.simps)
      from Cons.IH [OF this] show ?thesis by auto
    qed
  qed
qed

lemma insert_items_orders [simp]: "orders (insert_items db oid ls) = orders db"
  by (induction ls arbitrary: db) auto

lemma insert_items_counter [simp]:
  "orders_auto_increment (insert_items db oid ls) = orders_auto_increment db"
  by (induction ls arbitrary: db) auto

lemma insert_items_order_items:
  "order_items (insert_items db oid ls) = order_items db @ map (order_item_of oid) ls"
  by (induction ls arbitrary: db) auto

lemma insert_items_products:
  "products (insert_items db oid ls) =
     map (\<lambda>p. p\<lparr>stock := stock p - line_quantity (product_id p) ls\<rparr>) (products db)"
proof (induction ls arbitrary: db)
  case Nil
  then show ?case by (simp add: line_quantity_def)
next
  case (Cons item rest)
  then show ?case
    by (auto simp: decrement_stock_def line_quantity_def)
qed

lemma restore_stock_closed:
  "restore_stock ps ois = map (\<lambda>p. p\<lparr>stock := stock p + item_quantity (product_id p) ois\<rparr>) ps"
proof (induction ois arbitrary: ps)
  case Nil
  then show ?case by (simp add: item_quantity_def)
next
  case (Cons item rest)
  then show ?case
    by (auto simp: increment_stock_def item_quantity_def)
qed

lemma line_quantity_frozen:
  "line_quantity pid (map (frozen_line ps) its) = cart_quantity pid its"
  by (induction its) (auto simp: line_quantity_def cart_quantity_def frozen_line_def split: option.splits)

lemma order_item_of_frozen:
  "order_item_of oid (frozen_line ps item) = frozen_item ps oid item"
  by (simp add: order_item_of_def frozen_line_def frozen_item_def split: option.splits)

lemma items_total_frozen:
  "items_total (map (frozen_item ps oid) its) = lines_total (map (frozen_line ps) its)"
  by (induction its)
     (auto simp: items_total_def lines_total_def frozen_item_def frozen_line_def
           split: option.splits)

lemma item_quantity_frozen:
  "item_quantity pid (map (frozen_item ps oid) its) = cart_quantity pid its"
  by (induction its) (auto simp: item_quantity_def cart_quantity_def frozen_item_def)

text \<open>The database \<open>placeOrder\<close> commits.\<close>

lemma insert_items_after_insert_order:
  "insert_items (snd (insert_order db uid t addr ph)) oid (map (frozen_line (products db)) its) =
     \<lparr>products = map (\<lambda>p. p\<lparr>stock := stock p - cart_quantity (product_id p) its\<rparr>) (products db),
      orders = orders db @
        [\<lparr>order_id = orders_auto_increment db, user_id = uid, total_amount = t,
          payment_status = Pending, payment_id = None, order_status = Placed,
          delivery_address = addr, phone = ph\<rparr>],
      order_items = order_items db @ map (frozen_item (products db) oid) its,
      orders_auto_increment = Suc (orders_auto_increment db)\<rparr>"
  by (rule database.equality)
     (simp_all add: insert_items_products insert_items_order_items line_quantity_frozen
        insert_order_def Let_def order_item_of_frozen)

lemma placeOrder_available:
  assumes "validation_errors req = []"
    and "list_all (line_available (products db)) (items req)"
  shows "placeOrder env gw db req =
     (case gw (payment_request db req) of
        None \<Rightarrow> (Inl ServerErrorCreatingOrder, db)
      | Some rz \<Rightarrow>
          (Inr \<lparr>oc_order_id = orders_auto_increment db,
                oc_total_amount = lines_total (map (frozen_line (products db)) (items req)),
                oc_items = map (frozen_line (products db)) (items req),
                oc_razorpay_order = \<lparr>rz_id = rz_id rz, rz_amount = rz_amount rz,
                                     rz_currency = rz_currency rz\<rparr>,
                oc_razorpay_key_id = RAZORPAY_KEY_ID env\<rparr>,
           insert_items
             (snd (insert_order db (req_user_id req)
                     (lines_total (map (frozen_line (products db)) (items req)))
                     (req_delivery_address req) (req_phone req)))
             (orders_auto_increment db) (map (frozen_line (products db)) (items req))))"
  using assms validate_items_available [OF assms(2), of 0 "[]"]
  by (simp add: placeOrder_def payment_request_def rollback_def commit_def insert_order_def
           Let_def split: option.splits)

lemma placeOrder_Inl_unchanged:
  "placeOrder env gw db req = (Inl err, db') \<Longrightarrow> db' = db"
  by (auto simp: placeOrder_def rollback_def commit_def Let_def
           split: if_splits sum.splits prod.splits option.splits)

lemma placeOrder_Inr_available:
  "placeOrder env gw db req = (Inr created, db') \<Longrightarrow>
     validation_errors req = [] \<and> list_all (line_available (products db)) (items req)"
  by (auto simp: placeOrder_def rollback_def Let_def
           dest: validate_items_Inr
           split: if_splits sum.splits prod.splits option.splits)

lemma placeOrder_unavailable:
  assumes "validation_errors req = []"
    and "\<not> list_all (line_available (products db)) (items req)"
  shows "\<exists>err. placeOrder env gw db req = (Inl err, db) \<and>
     (\<exists>item \<in> set (items req).
        (read_product (products db) (ci_product_id item) = None \<and>
           err = ProductNotFound (ci_product_id item)) \<or>
        (\<exists>p. read_product (products db) (ci_product_id item) = Some p \<and>
             stock p < ci_quantity item \<and> err = InsufficientStock (name p) (stock p)))"
proof (cases "validate_items (products db) (items req) 0 []")
  case (Inl err)
  from validate_items_Inl [OF Inl] Inl assms(1) show ?thesis
    by (simp add: placeOrder_def rollback_def)
next
  case (Inr r)
  then obtain t ls where "validate_items (products db) (items req) 0 [] = Inr (t, ls)"
    by (cases r) simp
  from validate_items_Inr [OF this] assms(2) show ?thesis by simp
qed

lemma placeOrder_Inr_database:
  assumes "placeOrder env gw db req = (Inr created, db')"
  shows "oc_order_id created = orders_auto_increment db \<and>
         oc_total_amount created = lines_total (map (frozen_line (products db)) (items req)) \<and>
         oc_items created = map (frozen_line (products db)) (items req) \<and>
         gw (payment_request db req) = Some (oc_razorpay_order created) \<and>
         db' =
           \<lparr>products =
              map (\<lambda>p. p\<lparr>stock := stock p - cart_quantity (product_id p) (items req)\<rparr>) (products db),
            orders = orders db @
              [\<lparr>order_id = orders_auto_increment db, user_id = req_user_id req,
                total_amount = lines_total (map (frozen_line (products db)) (items req)),
                payment_status = Pending, payment_id = None, order_status = Placed,
                delivery_address = req_delivery_address req, phone = req_phone req\<rparr>],
            order_items = order_items db @
              map (frozen_item (products db) (orders_auto_increment db)) (items req),
            orders_auto_increment = Suc (orders_auto_increment db)\<rparr>"
proof -
  from placeOrder_Inr_available [OF assms] have
    v: "validation_errors req = []" and a: "list_all (line_available (products db)) (items req)"
    by simp_all
  from assms show ?thesis
    unfolding placeOrder_available [OF v a] insert_items_after_insert_order
    by (auto split: option.splits)
qed

subsection \<open>Cancelling\<close>

lemma cancelOrder_cancellable:
  assumes "select_order (orders db) oid uid = orderData # others"
    and "order_status orderData = Placed \<or> order_status orderData = Confirmed"
  shows "cancelOrder db uid oid =
     (Inr OrderCancelled,
      db\<lparr>products := restore_stock (products db) (select_order_items (order_items db) oid),
         orders := update_order_status (orders db) Cancelled oid\<rparr>)"
  using assms by (auto simp: cancelOrder_def commit_def Let_def)

lemma cancelOrder_Inr:
  assumes "cancelOrder db uid oid = (Inr ok, db')"
  shows "\<exists>orderData others. select_order (orders db) oid uid = orderData # others \<and>
           (order_status orderData = Placed \<or> order_status orderData = Confirmed) \<and>
           ok = OrderCancelled \<and>
           db' = db\<lparr>products := restore_stock (products db) (select_order_items (order_items db) oid),
                    orders := update_order_status (orders db) Cancelled oid\<rparr>"
  using assms by (auto simp: cancelOrder_def commit_def rollback_def Let_def split: list.splits if_splits)

lemma cancelOrder_Inl_unchanged:
  "cancelOrder db uid oid = (Inl err, db') \<Longrightarrow> db' = db"
  by (auto simp: cancelOrder_def commit_def rollback_def Let_def split: list.splits if_splits)

lemma item_quantity_absent:
  "pid \<notin> oi_product_id ` set ois \<Longrightarrow> item_quantity pid ois = 0"
proof -
  assume "pid \<notin> oi_product_id ` set ois"
  then have "filter (\<lambda>item. oi_product_id item = pid) ois = []"
    by (auto simp: filter_empty_conv)
  then show ?thesis by (simp add: item_quantity_def)
qed

lemma select_order_fresh:
  assumes "list_all (\<lambda>order. order_id order < n) os"
  shows "select_order os n uid = []"
  using assms by (auto simp: select_order_def filter_empty_conv list_all_iff)

lemma update_order_status_fresh:
  assumes "list_all (\<lambda>order. order_id order < n) os"
  shows "update_order_status os st n = os"
  unfolding update_order_status_def
  using assms by (intro map_idI) (auto simp: list_all_iff)

lemma select_order_items_fresh:
  assumes "list_all (\<lambda>order. order_id order < n) os"
    and "list_all (\<lambda>item. oi_order_id item \<in> set (map order_id os)) ois"
  shows "select_order_items ois n = []"
  using assms by (fastforce simp: select_order_items_def filter_empty_conv list_all_iff)

lemma select_order_items_new:
  "select_order_items (map (frozen_item ps n) its) n = map (frozen_item ps n) its"
  by (simp add: select_order_items_def frozen_item_def)

lemma restore_after_reserve:
  "restore_stock (map (\<lambda>p. p\<lparr>stock := stock p - cart_quantity (product_id p) its\<rparr>) ps)
     (map (frozen_item ps' n) its) = ps"
  unfolding restore_stock_closed
  by (simp add: item_quantity_frozen o_def)

lemma update_order_status_sets:
  assumes "order \<in> set (update_order_status os st oid)" and "order_id order = oid"
  shows "order_status order = st"
proof -
  from assms(1) obtain before where
    eq: "order = (if order_id before = oid then before\<lparr>order_status := st\<rparr> else before)"
    unfolding update_order_status_def set_map by (rule imageE)
  show ?thesis
  proof (cases "order_id before = oid")
    case True
    with eq show ?thesis by simp
  next
    case False
    with eq assms(2) show ?thesis by simp
  qed
qed

lemma order_id_unique:
  assumes "distinct (map order_id os)" and "a \<in> set os" and "b \<in> set os"
    and "order_id a = order_id b"
  shows "a = b"
proof -
  from assms(1) have "inj_on order_id (set os)" by (simp add: distinct_map)
  with assms(2,3,4) show ?thesis by (simp add: inj_on_eq_iff)
qed

lemma cancelOrder_cancels_only_early_orders:
  assumes keys: "distinct (map order_id (orders db))"
    and run: "cancelOrder db uid oid = (result, db')"
    and i: "i < length (orders db)"
    and after: "order_status (orders db' ! i) = Cancelled"
  shows "order_status (orders db ! i) \<in> {Placed, Confirmed, Cancelled}"
proof (cases result)
  case (Inl err)
  with run have "db' = db" by (simp add: cancelOrder_Inl_unchanged)
  with after show ?thesis by simp
next
  case (Inr ok)
  with run have "cancelOrder db uid oid = (Inr ok, db')" by simp
  from cancelOrder_Inr [OF this] obtain orderData others where
    sel: "select_order (orders db) oid uid = orderData # others" and
    early: "order_status orderData = Placed \<or> order_status orderData = Confirmed" and
    os: "orders db' = update_order_status (orders db) Cancelled oid"
    by auto
  show ?thesis
  proof (cases "order_id (orders db ! i) = oid")
    case True
    from sel have "orderData \<in> set (select_order (orders db) oid uid)" by simp
    then have "orderData \<in> set (orders db)" and "order_id orderData = oid"
      by (simp_all add: select_order_def)
    moreover from i have "orders db ! i \<in> set (orders db)" by simp
    ultimately have "orderData = orders db ! i"
      using True by (intro order_id_unique [OF keys]) simp_all
    with early show ?thesis by auto
  next
    case False
    with i os have "orders db' ! i = orders db ! i"
      by (simp add: update_order_status_def)
    with after show ?thesis by simp
  qed
qed

subsection \<open>The payment update\<close>

lemma update_order_payment_idem:
  "update_order_payment (update_order_payment os ps pay st oid uid) ps pay st oid uid =
     update_order_payment os ps pay st oid uid"
  by (simp add: update_order_payment_def)

lemma update_order_payment_no_match:
  "select_order os oid uid = [] \<Longrightarrow> update_order_payment os ps pay st oid uid = os"
  unfolding select_order_def update_order_payment_def filter_empty_conv
  by (rule map_idI) auto

subsection \<open>The example data, evaluated\<close>

lemma shop_ordered_eval:
  "shop_ordered =
     \<lparr>products = [milk\<lparr>stock := 2\<rparr>],
      orders = [\<lparr>order_id = 1, user_id = 2, total_amount = 18000, payment_status = Pending,
                 payment_id = None, order_status = Placed,
                 delivery_address = ''12 Dairy Lane, Pune'', phone = ''9876543210''\<rparr>],
      order_items = [\<lparr>oi_order_id = 1, oi_product_id = 7, oi_quantity = 3, oi_price = 6000\<rparr>],
      orders_auto_increment = 2\<rparr>"
  by (simp add: shop_ordered_def placeOrder_def shop_def milk_def cart_of_three_def gateway_up_def
        test_env_def select_active_product_def insert_order_def order_item_of_def
        decrement_stock_def commit_def)

lemma shop_paid_eval:
  "shop_paid =
     \<lparr>products = [milk\<lparr>stock := 2\<rparr>],
      orders = [\<lparr>order_id = 1, user_id = 2, total_amount = 18000, payment_status = Completed,
                 payment_id = Some ''pay_9'', order_status = Confirmed,
                 delivery_address = ''12 Dairy Lane, Pune'', phone = ''9876543210''\<rparr>],
      order_items = [\<lparr>oi_order_id = 1, oi_product_id = 7, oi_quantity = 3, oi_price = 6000\<rparr>],
      orders_auto_increment = 2\<rparr>"
  by (simp add: shop_paid_def shop_ordered_eval verifyPayment_def toy_hmac_def test_env_def
        good_callback_def update_order_payment_def)

lemma shop_shipped_eval:
  "shop_shipped =
     \<lparr>products = [milk\<lparr>stock := 2\<rparr>],
      orders = [\<lparr>order_id = 1, user_id = 2, total_amount = 18000, payment_status = Completed,
                 payment_id = Some ''pay_9'', order_status = Shipped,
                 delivery_address = ''12 Dairy Lane, Pune'', phone = ''9876543210''\<rparr>],
      order_items = [\<lparr>oi_order_id = 1, oi_product_id = 7, oi_quantity = 3, oi_price = 6000\<rparr>],
      orders_auto_increment = 2\<rparr>"
  by (simp add: shop_shipped_def shop_paid_eval adminUpdateStatus_def status_of_string_def
        update_order_status_def)

lemma placeOrder_cart_of_three:
  "placeOrder test_env gateway_up shop cart_of_three =
     (Inr \<lparr>oc_order_id = 1, oc_total_amount = 18000,
           oc_items = [\<lparr>ol_product_id = 7, ol_quantity = 3, ol_price = 6000, ol_name = ''Milk''\<rparr>],
           oc_razorpay_order = \<lparr>rz_id = ''order_A1'', rz_amount = 18000, rz_currency = ''INR''\<rparr>,
           oc_razorpay_key_id = ''rzp_test''\<rparr>, shop_ordered)"
  unfolding shop_ordered_def
  by (simp add: placeOrder_def shop_def milk_def cart_of_three_def gateway_up_def
        test_env_def select_active_product_def insert_order_def order_item_of_def
        decrement_stock_def commit_def)

lemma cart_of_three_available:
  "validation_errors cart_of_three = [] \<and>
   list_all (line_available (products shop)) (items cart_of_three)"
  by (simp add: cart_of_three_def shop_def milk_def line_available_def read_product_def
        select_active_product_def)

subsection \<open>Requests as steps\<close>

text \<open>What one request can do to the \<open>orders\<close> table.\<close>

lemma step_orders:
  assumes "step db db'"
  shows "orders db' = orders db \<or>
         (\<exists>row. orders db' = orders db @ [row] \<and> payment_status row = Pending) \<or>
         (\<exists>pay oid uid. orders db' = update_order_payment (orders db) Completed pay Confirmed oid uid) \<or>
         (\<exists>st oid. orders db' = update_order_status (orders db) st oid)"
  using assms
proof cases
  case (step_placeOrder env gw req)
  show ?thesis
  proof (cases "fst (placeOrder env gw db req)")
    case (Inl err)
    then have "placeOrder env gw db req = (Inl err, db')"
      using step_placeOrder by (metis prod.collapse)
    from placeOrder_Inl_unchanged [OF this] show ?thesis by simp
  next
    case (Inr created)
    then have "placeOrder env gw db req = (Inr created, db')"
      using step_placeOrder by (metis prod.collapse)
    from placeOrder_Inr_database [OF this] show ?thesis by simp
  qed
next
  case (step_verifyPayment hmac env uid body)
  then show ?thesis by (auto simp: verifyPayment_def Let_def)
next
  case (step_cancelOrder uid oid)
  show ?thesis
  proof (cases "fst (cancelOrder db uid oid)")
    case (Inl err)
    then have "cancelOrder db uid oid = (Inl err, db')"
      using step_cancelOrder by (metis prod.collapse)
    from cancelOrder_Inl_unchanged [OF this] show ?thesis by simp
  next
    case (Inr ok)
    then have "cancelOrder db uid oid = (Inr ok, db')"
      using step_cancelOrder by (metis prod.collapse)
    from cancelOrder_Inr [OF this]
    have "orders db' = update_order_status (orders db) Cancelled oid" by auto
    then show ?thesis by blast
  qed
next
  case (step_adminUpdateStatus oid status)
  then show ?thesis
    by (auto simp: adminUpdateStatus_def Let_def split: option.splits)
qed

lemma update_order_payment_nth:
  "i < length os \<Longrightarrow>
     order_id (update_order_payment os Completed pay st oid uid ! i) = order_id (os ! i) \<and>
     (payment_status (update_order_payment os Completed pay st oid uid ! i) = payment_status (os ! i) \<or>
      payment_status (update_order_payment os Completed pay st oid uid ! i) = Completed)"
  by (simp add: update_order_payment_def)

lemma update_order_status_nth:
  "i < length os \<Longrightarrow>
     order_id (update_order_status os st oid ! i) = order_id (os ! i) \<and>
     payment_status (update_order_status os st oid ! i) = payment_status (os ! i)"
  by (simp add: update_order_status_def)

lemma step_orders_nth:
  assumes "step db db'" and "i < length (orders db)"
  shows "i < length (orders db') \<and>
         order_id (orders db' ! i) = order_id (orders db ! i) \<and>
         (payment_status (orders db' ! i) = payment_status (orders db ! i) \<or>
          payment_status (orders db' ! i) = Completed)"
proof -
  from step_orders [OF assms(1)] consider
    (same) "orders db' = orders db"
  | (new) row where "orders db' = orders db @ [row]"
  | (paid) pay oid uid where
      "orders db' = update_order_payment (orders db) Completed pay Confirmed oid uid"
  | (status) st oid where "orders db' = update_order_status (orders db) st oid"
    by blast
  then show ?thesis
  proof cases
    case same
    with assms(2) show ?thesis by simp
  next
    case new
    with assms(2) show ?thesis by (simp add: nth_append)
  next
    case paid
    with assms(2) update_order_payment_nth [OF assms(2), of pay Confirmed oid uid]
    show ?thesis by (simp add: update_order_payment_def)
  next
    case status
    with assms(2) update_order_status_nth [OF assms(2), of st oid]
    show ?thesis by (simp add: update_order_status_def)
  qed
qed

lemma reachable_payment_status:
  "reachable db \<Longrightarrow>
     \<forall>order \<in> set (orders db). payment_status order = Pending \<or> payment_status order = Completed"
proof (induction rule: reachable.induct)
  case (reachable_initial db)
  then show ?case by simp
next
  case (reachable_step db db')
  from step_orders [OF reachable_step.hyps(2)] consider
    (same) "orders db' = orders db"
  | (new) row where "orders db' = orders db @ [row]" and "payment_status row = Pending"
  | (paid) pay oid uid where
      "orders db' = update_order_payment (orders db) Completed pay Confirmed oid uid"
  | (status) st oid where "orders db' = update_order_status (orders db) st oid"
    by blast
  then show ?case
  proof cases
    case same
    with reachable_step.IH show ?thesis by simp
  next
    case new
    with reachable_step.IH show ?thesis by simp
  next
    case paid
    show ?thesis
    proof
      fix order
      assume "order \<in> set (orders db')"
      then obtain before where "before \<in> set (orders db)" and
        "order = (if order_id before = oid \<and> user_id before = uid
                  then before\<lparr>payment_status := Completed, payment_id := Some pay,
                               order_status := Confirmed\<rparr>
                  else before)"
        unfolding paid update_order_payment_def set_map by (rule imageE)
      with reachable_step.IH
      show "payment_status order = Pending \<or> payment_status order = Completed"
        by (cases "order_id before = oid \<and> user_id before = uid") simp_all
    qed
  next
    case status
    show ?thesis
    proof
      fix order
      assume "order \<in> set (orders db')"
      then obtain before where "before \<in> set (orders db)" and
        "order = (if order_id before = oid then before\<lparr>order_status := st\<rparr> else before)"
        unfolding status update_order_status_def set_map by (rule imageE)
      with reachable_step.IH
      show "payment_status order = Pending \<or> payment_status order = Completed"
        by (cases "order_id before = oid") simp_all
    qed
  qed
qed

lemma steps_keep_completed:
  assumes "step\<^sup>*\<^sup>* db db'"
  shows "i < length (orders db) \<Longrightarrow> payment_status (orders db ! i) = Completed \<Longrightarrow>
         i < length (orders db') \<and> order_id (orders db' ! i) = order_id (orders db ! i) \<and>
         payment_status (orders db' ! i) = Completed"
  using assms
proof (induction rule: rtranclp_induct)
  case base
  then show ?case by simp
next
  case (step mid last)
  from step.IH [OF step.prems] have
    i: "i < length (orders mid)" and
    id: "order_id (orders mid ! i) = order_id (orders db ! i)" and
    c: "payment_status (orders mid ! i) = Completed"
    by simp_all
  from step_orders_nth [OF step.hyps(2) i] id c show ?case by auto
qed

subsection \<open>The key constraints are kept by every request\<close>

lemma keys_consistent_iff:
  "keys_consistent db \<longleftrightarrow>
     distinct (map product_id (products db)) \<and>
     distinct (map order_id (orders db)) \<and>
     (\<forall>i \<in> set (map order_id (orders db)). i < orders_auto_increment db) \<and>
     (\<forall>item \<in> set (order_items db). oi_order_id item \<in> set (map order_id (orders db)))"
  by (auto simp: keys_consistent_def list_all_iff)

lemma keys_consistent_same_keys:
  assumes "keys_consistent db"
    and "map product_id (products db') = map product_id (products db)"
    and "map order_id (orders db') = map order_id (orders db)"
    and "order_items db' = order_items db"
    and "orders_auto_increment db' = orders_auto_increment db"
  shows "keys_consistent db'"
  using assms unfolding keys_consistent_iff by simp

lemma update_order_status_ids [simp]:
  "map order_id (update_order_status os st oid) = map order_id os"
  by (simp add: update_order_status_def)

lemma update_order_payment_ids [simp]:
  "map order_id (update_order_payment os ps pay st oid uid) = map order_id os"
  by (simp add: update_order_payment_def)

lemma restore_stock_ids [simp]:
  "map product_id (restore_stock ps ois) = map product_id ps"
  by (simp add: restore_stock_closed)

lemma keys_consistent_placeOrder:
  assumes "keys_consistent db"
  shows "keys_consistent (snd (placeOrder env gw db req))"
proof (cases "fst (placeOrder env gw db req)")
  case (Inl err)
  then have "placeOrder env gw db req = (Inl err, snd (placeOrder env gw db req))"
    by (metis prod.collapse)
  from placeOrder_Inl_unchanged [OF this] assms show ?thesis by simp
next
  case (Inr created)
  then have "placeOrder env gw db req = (Inr created, snd (placeOrder env gw db req))"
    by (metis prod.collapse)
  from placeOrder_Inr_database [OF this] have
    "products (snd (placeOrder env gw db req)) =
       map (\<lambda>p. p\<lparr>stock := stock p - cart_quantity (product_id p) (items req)\<rparr>) (products db)"
    and "map order_id (orders (snd (placeOrder env gw db req))) =
       map order_id (orders db) @ [orders_auto_increment db]"
    and "order_items (snd (placeOrder env gw db req)) =
       order_items db @ map (frozen_item (products db) (orders_auto_increment db)) (items req)"
    and "orders_auto_increment (snd (placeOrder env gw db req)) = Suc (orders_auto_increment db)"
    by simp_all
  with assms show ?thesis
    unfolding keys_consistent_iff
    by (auto simp: o_def frozen_item_def less_Suc_eq)
qed

lemma keys_consistent_step:
  assumes "keys_consistent db" and "step db db'"
  shows "keys_consistent db'"
  using assms(2)
proof cases
  case (step_placeOrder env gw req)
  with keys_consistent_placeOrder [OF assms(1)] show ?thesis by simp
next
  case (step_verifyPayment hmac env uid body)
  then have "db' = db \<or>
      db' = db\<lparr>orders := update_order_payment (orders db) Completed (razorpay_payment_id body)
                             Confirmed (cb_order_id body) uid\<rparr>"
    by (simp add: verifyPayment_def Let_def)
  then show ?thesis
  proof
    assume "db' = db"
    with assms(1) show ?thesis by simp
  next
    assume "db' = db\<lparr>orders := update_order_payment (orders db) Completed (razorpay_payment_id body)
                             Confirmed (cb_order_id body) uid\<rparr>"
    then show ?thesis
      by (intro keys_consistent_same_keys [OF assms(1)]) simp_all
  qed
next
  case (step_cancelOrder uid oid)
  show ?thesis
  proof (cases "fst (cancelOrder db uid oid)")
    case (Inl err)
    then have "cancelOrder db uid oid = (Inl err, db')"
      using step_cancelOrder by (metis prod.collapse)
    from cancelOrder_Inl_unchanged [OF this] assms(1) show ?thesis by simp
  next
    case (Inr ok)
    then have "cancelOrder db uid oid = (Inr ok, db')"
      using step_cancelOrder by (metis prod.collapse)
    from cancelOrder_Inr [OF this] have
      "db' = db\<lparr>products := restore_stock (products db) (select_order_items (order_items db) oid),
                 orders := update_order_status (orders db) Cancelled oid\<rparr>"
      by auto
    then show ?thesis
      by (intro keys_consistent_same_keys [OF assms(1)]) simp_all
  qed
next
  case (step_adminUpdateStatus oid status)
  then have "db' = db \<or> (\<exists>st. db' = db\<lparr>orders := update_order_status (orders db) st oid\<rparr>)"
    by (auto simp: adminUpdateStatus_def Let_def split: option.splits)
  then show ?thesis
  proof (elim disjE exE)
    assume "db' = db"
    with assms(1) show ?thesis by simp
  next
    fix st
    assume "db' = db\<lparr>orders := update_order_status (orders db) st oid\<rparr>"
    then show ?thesis
      by (intro keys_consistent_same_keys [OF assms(1)]) simp_all
  qed
qed

lemma keys_consistent_steps:
  "step\<^sup>*\<^sup>* db db' \<Longrightarrow> keys_consistent db \<Longrightarrow> keys_consistent db'"
  by (induction rule: rtranclp_induct) (auto intro: keys_consistent_step)

section \<open>The claims\<close>

text \<open>
  \<^bold>\<open>C1.\<close> The specification asks that the decrement of step 6 be a conditional update:
  for every cart line, \<open>Product.stock\<close> goes down by the line's quantity only under
  \<open>stock >= quantity\<close>, the condition being part of the decrement, so that no order can
  drive a stock below zero. The handler guards the stock (the test of the first loop refuses
  a line that asks for more than is there, and the product routes accept only a stock that is
  not negative), but its guard misses a case: the \<^verbatim>\<open>UPDATE\<close> of \<open>decrement_stock\<close>
  has no stock condition, and the first loop reads every line against the stock as it is
  before any decrement. With five of product 7 in stock, six on one line are refused with
  \<open>InsufficientStock\<close> and nothing changes; the same six on two lines of three pass the
  read twice, the second decrement is applied to a stock of two, and the order is committed
  with a stock of minus one, where the conditional update would have left two.
\<close>

theorem placeOrder_repeated_product_drives_stock_negative:
  "validation_errors cart_of_three_twice = [] \<and>
   map stock (products shop) = [5] \<and>
   placeOrder test_env gateway_up shop cart_of_six = (Inl (InsufficientStock ''Milk'' 5), shop) \<and>
   fst (placeOrder test_env gateway_up shop cart_of_three_twice) =
     Inr \<lparr>oc_order_id = 1, oc_total_amount = 36000,
          oc_items = [\<lparr>ol_product_id = 7, ol_quantity = 3, ol_price = 6000, ol_name = ''Milk''\<rparr>,
                      \<lparr>ol_product_id = 7, ol_quantity = 3, ol_price = 6000, ol_name = ''Milk''\<rparr>],
          oc_razorpay_order = \<lparr>rz_id = ''order_A1'', rz_amount = 36000, rz_currency = ''INR''\<rparr>,
          oc_razorpay_key_id = ''rzp_test''\<rparr> \<and>
   products (snd (placeOrder test_env gateway_up shop cart_of_three_twice)) = [milk\<lparr>stock := - 1\<rparr>] \<and>
   decrement_stock [milk\<lparr>stock := 2\<rparr>] 3 7 = [milk\<lparr>stock := - 1\<rparr>] \<and>
   spec_conditional_decrement_stock [milk\<lparr>stock := 2\<rparr>] 3 7 = [milk\<lparr>stock := 2\<rparr>] \<and>
   decrement_stock [milk\<lparr>stock := 2\<rparr>] 3 7 \<noteq> spec_conditional_decrement_stock [milk\<lparr>stock := 2\<rparr>] 3 7"
  by (simp add: placeOrder_def shop_def milk_def cart_of_three_twice_def cart_of_three_def
        cart_of_six_def gateway_up_def test_env_def select_active_product_def insert_order_def
        order_item_of_def decrement_stock_def spec_conditional_decrement_stock_def
        commit_def rollback_def)

text \<open>
  \<^bold>\<open>C2.\<close> Whenever \<open>placeOrder\<close> answers with a failure, the database it leaves is the
  one it found: no order row, no line item, no stock change. A cart that passed validation
  but has a line whose product is missing, inactive or short of stock fails with
  \<open>ProductNotFound\<close> or \<open>InsufficientStock\<close> for such a line; a cart that passed both
  checks fails with the 500 response when the gateway does not create the payment order. A
  success response, the only path that commits, is reached only after the gateway returned
  its order.
\<close>

theorem placeOrder_failure_leaves_database:
  "(\<forall>err db'. placeOrder env gw db req = (Inl err, db') \<longrightarrow> db' = db) \<and>
   (validation_errors req = [] \<and> \<not> list_all (line_available (products db)) (items req) \<longrightarrow>
      (\<exists>err. placeOrder env gw db req = (Inl err, db) \<and>
         (\<exists>item \<in> set (items req).
            (read_product (products db) (ci_product_id item) = None \<and>
               err = ProductNotFound (ci_product_id item)) \<or>
            (\<exists>p. read_product (products db) (ci_product_id item) = Some p \<and>
                 stock p < ci_quantity item \<and> err = InsufficientStock (name p) (stock p))))) \<and>
   (validation_errors req = [] \<and> list_all (line_available (products db)) (items req) \<and>
      gw (payment_request db req) = None \<longrightarrow>
      placeOrder env gw db req = (Inl ServerErrorCreatingOrder, db)) \<and>
   (\<forall>created db'. placeOrder env gw db req = (Inr created, db') \<longrightarrow>
      (\<exists>rz. gw (payment_request db req) = Some rz \<and> oc_razorpay_order created = rz))"
proof (intro conjI allI impI)
  fix err db'
  assume "placeOrder env gw db req = (Inl err, db')"
  then show "db' = db" by (rule placeOrder_Inl_unchanged)
next
  assume "validation_errors req = [] \<and> \<not> list_all (line_available (products db)) (items req)"
  then show "\<exists>err. placeOrder env gw db req = (Inl err, db) \<and>
         (\<exists>item \<in> set (items req).
            (read_product (products db) (ci_product_id item) = None \<and>
               err = ProductNotFound (ci_product_id item)) \<or>
            (\<exists>p. read_product (products db) (ci_product_id item) = Some p \<and>
                 stock p < ci_quantity item \<and> err = InsufficientStock (name p) (stock p)))"
    using placeOrder_unavailable by blast
next
  assume "validation_errors req = [] \<and> list_all (line_available (products db)) (items req) \<and>
      gw (payment_request db req) = None"
  then show "placeOrder env gw db req = (Inl ServerErrorCreatingOrder, db)"
    by (simp add: placeOrder_available)
next
  fix created db'
  assume ok: "placeOrder env gw db req = (Inr created, db')"
  from placeOrder_Inr_available [OF ok] have
    v: "validation_errors req = []" and a: "list_all (line_available (products db)) (items req)"
    by simp_all
  from ok show "\<exists>rz. gw (payment_request db req) = Some rz \<and> oc_razorpay_order created = rz"
    unfolding placeOrder_available [OF v a]
    by (auto split: option.splits)
qed

theorem placeOrder_failure_leaves_database_witness:
  "validation_errors cart_of_six = [] \<and>
   \<not> list_all (line_available (products shop)) (items cart_of_six) \<and>
   placeOrder test_env gateway_up shop cart_of_six = (Inl (InsufficientStock ''Milk'' 5), shop) \<and>
   placeOrder test_env gateway_up shop (cart_of_three\<lparr>items := [\<lparr>ci_product_id = 8, ci_quantity = 1\<rparr>]\<rparr>)
     = (Inl (ProductNotFound 8), shop) \<and>
   gateway_down (payment_request shop cart_of_three) = None \<and>
   placeOrder test_env gateway_down shop cart_of_three = (Inl ServerErrorCreatingOrder, shop) \<and>
   placeOrder test_env gateway_up shop cart_of_three =
     (Inr \<lparr>oc_order_id = 1, oc_total_amount = 18000,
           oc_items = [\<lparr>ol_product_id = 7, ol_quantity = 3, ol_price = 6000, ol_name = ''Milk''\<rparr>],
           oc_razorpay_order = \<lparr>rz_id = ''order_A1'', rz_amount = 18000, rz_currency = ''INR''\<rparr>,
           oc_razorpay_key_id = ''rzp_test''\<rparr>, shop_ordered) \<and>
   gateway_up (payment_request shop cart_of_three) =
     Some \<lparr>rz_id = ''order_A1'', rz_amount = 18000, rz_currency = ''INR''\<rparr>"
proof -
  have six: "placeOrder test_env gateway_up shop cart_of_six = (Inl (InsufficientStock ''Milk'' 5), shop)"
    by (simp add: placeOrder_def shop_def milk_def cart_of_six_def cart_of_three_def
          select_active_product_def rollback_def)
  have eight: "placeOrder test_env gateway_up shop (cart_of_three\<lparr>items := [\<lparr>ci_product_id = 8, ci_quantity = 1\<rparr>]\<rparr>)
     = (Inl (ProductNotFound 8), shop)"
    by (simp add: placeOrder_def shop_def milk_def cart_of_three_def
          select_active_product_def rollback_def)
  have avail: "validation_errors cart_of_three = [] \<and>
      list_all (line_available (products shop)) (items cart_of_three)"
    by (simp add: cart_of_three_def shop_def milk_def line_available_def read_product_def
          select_active_product_def)
  have down: "gateway_down (payment_request shop cart_of_three) = None"
    by (simp add: gateway_down_def)
  have up: "placeOrder test_env gateway_up shop cart_of_three =
     (Inr \<lparr>oc_order_id = 1, oc_total_amount = 18000,
           oc_items = [\<lparr>ol_product_id = 7, ol_quantity = 3, ol_price = 6000, ol_name = ''Milk''\<rparr>],
           oc_razorpay_order = \<lparr>rz_id = ''order_A1'', rz_amount = 18000, rz_currency = ''INR''\<rparr>,
           oc_razorpay_key_id = ''rzp_test''\<rparr>, shop_ordered)"
    unfolding shop_ordered_def
    by (simp add: placeOrder_def shop_def milk_def cart_of_three_def gateway_up_def
        test_env_def select_active_product_def insert_order_def order_item_of_def
        decrement_stock_def commit_def)
  have short: "validation_errors cart_of_six = [] \<and>
      \<not> list_all (line_available (products shop)) (items cart_of_six)"
    by (simp add: cart_of_six_def cart_of_three_def shop_def milk_def line_available_def
          read_product_def select_active_product_def)
  note thm1 = placeOrder_failure_leaves_database [of test_env gateway_up shop cart_of_six]
  from thm1 short obtain err where
    "placeOrder test_env gateway_up shop cart_of_six = (Inl err, shop)"
    by blast
  with six have rolled_back: "err = InsufficientStock ''Milk'' 5" by simp
  note thm2 = placeOrder_failure_leaves_database [of test_env gateway_down shop cart_of_three]
  note thm3 = placeOrder_failure_leaves_database [of test_env gateway_up shop cart_of_three]
  from thm2 avail down have "placeOrder test_env gateway_down shop cart_of_three = (Inl ServerErrorCreatingOrder, shop)"
    by blast
  moreover from thm3 up have "gateway_up (payment_request shop cart_of_three) =
     Some \<lparr>rz_id = ''order_A1'', rz_amount = 18000, rz_currency = ''INR''\<rparr>"
    by auto
  ultimately show ?thesis using short six eight down up by simp
qed

text \<open>
  \<^bold>\<open>C3\<close> promises the reservation for every valid cart whose products are active and in
  stock. That leaves out the gateway: for such a cart, when the gateway does not create the
  payment order, the handler rolls back and answers 500. No stock is taken and no order or
  line item exists afterwards.
\<close>

theorem placeOrder_gateway_failure_creates_nothing:
  "validation_errors cart_of_three = [] \<and>
   list_all (line_available (products shop)) (items cart_of_three) \<and>
   placeOrder test_env gateway_down shop cart_of_three = (Inl ServerErrorCreatingOrder, shop) \<and>
   map stock (products shop) = [5] \<and>
   orders shop = [] \<and>
   order_items shop = []"
  by (simp add: placeOrder_def shop_def milk_def cart_of_three_def gateway_down_def
        line_available_def read_product_def select_active_product_def insert_order_def
        rollback_def)

text \<open>
  \<^bold>\<open>C3, as amended.\<close> For a cart that passed validation, whose every line finds its
  product active with a stock not below the quantity, and for which the gateway creates the
  payment order, \<open>placeOrder\<close> succeeds; every product's stock is less by exactly the
  quantity the cart orders of it; one line item per cart line is appended, with the price of
  the product row read in the first loop; and one order is appended, pending and placed,
  whose \<open>total_amount\<close> is the sum of quantity times price over those line items.
\<close>

theorem placeOrder_reserves_stock_and_records_order:
  assumes "validation_errors req = []"
    and "list_all (line_available (products db)) (items req)"
    and "gw (payment_request db req) = Some rz"
  shows "\<exists>created db'.
     placeOrder env gw db req = (Inr created, db') \<and>
     oc_order_id created = orders_auto_increment db \<and>
     products db' =
       map (\<lambda>p. p\<lparr>stock := stock p - cart_quantity (product_id p) (items req)\<rparr>) (products db) \<and>
     order_items db' =
       order_items db @ map (frozen_item (products db) (orders_auto_increment db)) (items req) \<and>
     orders db' =
       orders db @
         [\<lparr>order_id = orders_auto_increment db, user_id = req_user_id req,
           total_amount =
             items_total (map (frozen_item (products db) (orders_auto_increment db)) (items req)),
           payment_status = Pending, payment_id = None, order_status = Placed,
           delivery_address = req_delivery_address req, phone = req_phone req\<rparr>]"
  unfolding placeOrder_available [OF assms(1,2)] insert_items_after_insert_order items_total_frozen
  using assms(3) by simp

theorem placeOrder_reserves_stock_and_records_order_witness:
  "validation_errors cart_of_three = [] \<and>
   list_all (line_available (products shop)) (items cart_of_three) \<and>
   gateway_up (payment_request shop cart_of_three) =
     Some \<lparr>rz_id = ''order_A1'', rz_amount = 18000, rz_currency = ''INR''\<rparr> \<and>
   products shop = [milk] \<and> price milk = 6000 \<and> stock milk = 5 \<and>
   products (snd (placeOrder test_env gateway_up shop cart_of_three)) = [milk\<lparr>stock := 2\<rparr>] \<and>
   order_items (snd (placeOrder test_env gateway_up shop cart_of_three)) =
     [\<lparr>oi_order_id = 1, oi_product_id = 7, oi_quantity = 3, oi_price = 6000\<rparr>] \<and>
   orders (snd (placeOrder test_env gateway_up shop cart_of_three)) =
     [\<lparr>order_id = 1, user_id = 2, total_amount = 18000, payment_status = Pending,
       payment_id = None, order_status = Placed,
       delivery_address = ''12 Dairy Lane, Pune'', phone = ''9876543210''\<rparr>]"
proof -
  have gw: "gateway_up (payment_request shop cart_of_three) =
     Some \<lparr>rz_id = ''order_A1'', rz_amount = 18000, rz_currency = ''INR''\<rparr>"
    by (simp add: gateway_up_def payment_request_def lines_total_def frozen_line_def
          read_product_def select_active_product_def shop_def milk_def cart_of_three_def)
  from cart_of_three_available have v: "validation_errors cart_of_three = []"
    and a: "list_all (line_available (products shop)) (items cart_of_three)"
    by simp_all
  from v a gw
    placeOrder_reserves_stock_and_records_order
      [where req = cart_of_three and db = shop and gw = gateway_up and env = test_env
         and rz = "\<lparr>rz_id = ''order_A1'', rz_amount = 18000, rz_currency = ''INR''\<rparr>"]
  obtain created db' where
    run: "placeOrder test_env gateway_up shop cart_of_three = (Inr created, db')" and
    ps: "products db' =
       map (\<lambda>p. p\<lparr>stock := stock p - cart_quantity (product_id p) (items cart_of_three)\<rparr>)
         (products shop)" and
    its: "order_items db' =
       order_items shop @
         map (frozen_item (products shop) (orders_auto_increment shop)) (items cart_of_three)" and
    os: "orders db' =
       orders shop @
         [\<lparr>order_id = orders_auto_increment shop, user_id = req_user_id cart_of_three,
           total_amount =
             items_total (map (frozen_item (products shop) (orders_auto_increment shop))
                            (items cart_of_three)),
           payment_status = Pending, payment_id = None, order_status = Placed,
           delivery_address = req_delivery_address cart_of_three,
           phone = req_phone cart_of_three\<rparr>]"
    by blast
  have "products db' = [milk\<lparr>stock := 2\<rparr>]"
    unfolding ps by (simp add: shop_def milk_def cart_of_three_def cart_quantity_def)
  moreover have "order_items db' =
     [\<lparr>oi_order_id = 1, oi_product_id = 7, oi_quantity = 3, oi_price = 6000\<rparr>]"
    unfolding its
    by (simp add: shop_def milk_def cart_of_three_def frozen_item_def read_product_def
          select_active_product_def)
  moreover have "orders db' =
     [\<lparr>order_id = 1, user_id = 2, total_amount = 18000, payment_status = Pending,
       payment_id = None, order_status = Placed,
       delivery_address = ''12 Dairy Lane, Pune'', phone = ''9876543210''\<rparr>]"
    unfolding os
    by (simp add: shop_def milk_def cart_of_three_def frozen_item_def read_product_def
          select_active_product_def items_total_def)
  moreover have "snd (placeOrder test_env gateway_up shop cart_of_three) = db'"
    by (simp add: run)
  moreover have "products shop = [milk] \<and> price milk = 6000 \<and> stock milk = 5"
    by (simp add: shop_def milk_def)
  ultimately show ?thesis
    using v a gw by simp
qed

text \<open>
  \<^bold>\<open>C4.\<close> When the order \<open>cancelOrder\<close> reads is placed or confirmed, it succeeds, adds
  to every product's stock the quantities that order's line items record for it, whatever
  the stock is by then, and leaves the order cancelled. When the keys are consistent, a
  successful \<open>placeOrder\<close> followed at once by \<open>cancelOrder\<close> of the new order by its
  user gives back the products table as it was before the order.
\<close>

theorem cancelOrder_restores_reserved_stock:
  "(select_order (orders db) oid uid = orderData # others \<and>
      order_status orderData \<in> {Placed, Confirmed} \<longrightarrow>
      (\<exists>db'. cancelOrder db uid oid = (Inr OrderCancelled, db') \<and>
         products db' =
           map (\<lambda>p. p\<lparr>stock := stock p +
                      item_quantity (product_id p) (select_order_items (order_items db) oid)\<rparr>)
             (products db) \<and>
         (\<forall>order \<in> set (orders db'). order_id order = oid \<longrightarrow> order_status order = Cancelled))) \<and>
   (keys_consistent db \<and> placeOrder env gw db req = (Inr created, after_order) \<longrightarrow>
      (\<exists>after_cancel. cancelOrder after_order (req_user_id req) (oc_order_id created) = (Inr OrderCancelled, after_cancel) \<and>
         products after_cancel = products db \<and>
         map order_status (orders after_cancel) = map order_status (orders db) @ [Cancelled]))"
proof (intro conjI impI)
  assume "select_order (orders db) oid uid = orderData # others \<and>
      order_status orderData \<in> {Placed, Confirmed}"
  then have "cancelOrder db uid oid =
     (Inr OrderCancelled,
      db\<lparr>products := restore_stock (products db) (select_order_items (order_items db) oid),
         orders := update_order_status (orders db) Cancelled oid\<rparr>)"
    by (intro cancelOrder_cancellable) auto
  moreover have "products (db\<lparr>products := restore_stock (products db) (select_order_items (order_items db) oid),
         orders := update_order_status (orders db) Cancelled oid\<rparr>) =
           map (\<lambda>p. p\<lparr>stock := stock p +
                      item_quantity (product_id p) (select_order_items (order_items db) oid)\<rparr>)
             (products db)"
    by (simp add: restore_stock_closed)
  moreover have "\<forall>order \<in> set (orders (db\<lparr>products := restore_stock (products db) (select_order_items (order_items db) oid),
         orders := update_order_status (orders db) Cancelled oid\<rparr>)). order_id order = oid \<longrightarrow> order_status order = Cancelled"
    by (simp add: update_order_status_sets)
  ultimately show "\<exists>db'. cancelOrder db uid oid = (Inr OrderCancelled, db') \<and>
         products db' =
           map (\<lambda>p. p\<lparr>stock := stock p +
                      item_quantity (product_id p) (select_order_items (order_items db) oid)\<rparr>)
             (products db) \<and>
         (\<forall>order \<in> set (orders db'). order_id order = oid \<longrightarrow> order_status order = Cancelled)"
    by (intro exI conjI)
next
  assume asm: "keys_consistent db \<and> placeOrder env gw db req = (Inr created, after_order)"
  define n where "n = orders_auto_increment db"
  define placed where
    "placed = \<lparr>order_id = n, user_id = req_user_id req,
                total_amount = lines_total (map (frozen_line (products db)) (items req)),
                payment_status = Pending, payment_id = None, order_status = Placed,
                delivery_address = req_delivery_address req, phone = req_phone req\<rparr>"
  from asm have below: "list_all (\<lambda>order. order_id order < n) (orders db)"
    and fk: "list_all (\<lambda>item. oi_order_id item \<in> set (map order_id (orders db))) (order_items db)"
    by (simp_all add: keys_consistent_def n_def)
  from asm placeOrder_Inr_database [of env gw db req created after_order] have
    oid: "oc_order_id created = n" and
    ps1: "products after_order =
            map (\<lambda>p. p\<lparr>stock := stock p - cart_quantity (product_id p) (items req)\<rparr>) (products db)" and
    os1: "orders after_order = orders db @ [placed]" and
    is1: "order_items after_order = order_items db @ map (frozen_item (products db) n) (items req)"
    by (simp_all add: n_def placed_def)
  have sel: "select_order (orders after_order) n (req_user_id req) = [placed]"
    using select_order_fresh [OF below, of "req_user_id req"]
    by (simp add: os1 select_order_def placed_def)
  have its: "select_order_items (order_items after_order) n = map (frozen_item (products db) n) (items req)"
    using select_order_items_fresh [OF below fk] select_order_items_new [of "products db" n "items req"]
    by (simp add: is1 select_order_items_def)
  have upd: "update_order_status (orders after_order) Cancelled n = orders db @ [placed\<lparr>order_status := Cancelled\<rparr>]"
    using update_order_status_fresh [OF below, of Cancelled]
    by (simp add: os1 update_order_status_def placed_def)
  have "cancelOrder after_order (req_user_id req) n =
     (Inr OrderCancelled,
      after_order\<lparr>products := restore_stock (products after_order) (select_order_items (order_items after_order) n),
          orders := update_order_status (orders after_order) Cancelled n\<rparr>)"
    by (rule cancelOrder_cancellable [OF sel]) (simp add: placed_def)
  then show "\<exists>after_cancel. cancelOrder after_order (req_user_id req) (oc_order_id created) = (Inr OrderCancelled, after_cancel) \<and>
         products after_cancel = products db \<and>
         map order_status (orders after_cancel) = map order_status (orders db) @ [Cancelled]"
    by (simp add: oid its ps1 restore_after_reserve upd)
qed

theorem cancelOrder_restores_reserved_stock_witness:
  "keys_consistent shop \<and>
   placeOrder test_env gateway_up shop cart_of_three = (fst (placeOrder test_env gateway_up shop cart_of_three), shop_ordered) \<and>
   map stock (products shop) = [5] \<and>
   map stock (products shop_ordered) = [2] \<and>
   fst (cancelOrder shop_ordered 2 1) = Inr OrderCancelled \<and>
   products (snd (cancelOrder shop_ordered 2 1)) = products shop \<and>
   select_order (orders shop_paid) 1 2 = [hd (orders shop_paid)] \<and>
   order_status (hd (orders shop_paid)) = Confirmed \<and>
   map stock (products (snd (cancelOrder shop_paid 2 1))) = [5]"
proof -
  have kc: "keys_consistent shop"
    by (simp add: keys_consistent_def shop_def)
  obtain created where run: "placeOrder test_env gateway_up shop cart_of_three = (Inr created, shop_ordered)"
    and oid: "oc_order_id created = 1"
    by (simp add: shop_ordered_def placeOrder_def shop_def milk_def cart_of_three_def gateway_up_def
        test_env_def select_active_product_def insert_order_def order_item_of_def
        decrement_stock_def commit_def)
  have sel: "select_order (orders shop_paid) 1 2 = [hd (orders shop_paid)]"
    and st: "order_status (hd (orders shop_paid)) = Confirmed"
    by (simp_all add: shop_paid_eval select_order_def)
  note restores = cancelOrder_restores_reserved_stock
  from kc run
    restores [where db = shop and env = test_env and gw = gateway_up and req = cart_of_three
                and created = created and after_order = shop_ordered, THEN conjunct2]
  obtain db2 where
    "cancelOrder shop_ordered (req_user_id cart_of_three) (oc_order_id created)
       = (Inr OrderCancelled, db2)"
    and p2: "products db2 = products shop"
    by blast
  then have c1: "cancelOrder shop_ordered 2 1 = (Inr OrderCancelled, db2)"
    by (simp add: oid cart_of_three_def)
  from sel st
    restores [where db = shop_paid and oid = 1 and uid = 2 and orderData = "hd (orders shop_paid)"
                and others = "[]", THEN conjunct1]
  obtain db3 where c2: "cancelOrder shop_paid 2 1 = (Inr OrderCancelled, db3)"
    and p3: "products db3 =
           map (\<lambda>p. p\<lparr>stock := stock p +
                      item_quantity (product_id p) (select_order_items (order_items shop_paid) 1)\<rparr>)
             (products shop_paid)"
    by auto
  have "map stock (products db3) = [5]"
    unfolding p3 by (simp add: shop_paid_eval milk_def select_order_items_def item_quantity_def)
  moreover have "fst (cancelOrder shop_ordered 2 1) = Inr OrderCancelled"
    and "products (snd (cancelOrder shop_ordered 2 1)) = products shop"
    using c1 p2 by simp_all
  ultimately show ?thesis using kc run sel st c2
    by (simp add: shop_def milk_def shop_ordered_eval)
qed

text \<open>
  \<^bold>\<open>C5.\<close> When the order \<open>cancelOrder\<close> reads is processing, shipped, delivered or
  cancelled, it answers \<open>OrderCannotBeCancelled\<close> (400) and leaves the database, with
  that order, its line items and all stock, unchanged. A successful \<open>cancelOrder\<close> read
  an order that was placed or confirmed; and, \<open>order_id\<close> being a key, an order row that
  is cancelled after \<open>cancelOrder\<close> was placed, confirmed or already cancelled before.
\<close>

theorem cancelOrder_refuses_late_stages:
  "(select_order (orders db) oid uid = orderData # others \<and>
      order_status orderData \<in> {Processing, Shipped, Delivered, Cancelled} \<longrightarrow>
      cancelOrder db uid oid = (Inl OrderCannotBeCancelled, db)) \<and>
   (\<forall>ok db'. cancelOrder db uid oid = (Inr ok, db') \<longrightarrow>
      (\<exists>found rest. select_order (orders db) oid uid = found # rest \<and>
          order_status found \<in> {Placed, Confirmed})) \<and>
   (\<forall>result db' i.
      distinct (map order_id (orders db)) \<and> cancelOrder db uid oid = (result, db') \<and>
      i < length (orders db) \<and> order_status (orders db' ! i) = Cancelled \<longrightarrow>
      order_status (orders db ! i) \<in> {Placed, Confirmed, Cancelled})"
proof (intro conjI allI impI)
  assume "select_order (orders db) oid uid = orderData # others \<and>
      order_status orderData \<in> {Processing, Shipped, Delivered, Cancelled}"
  then show "cancelOrder db uid oid = (Inl OrderCannotBeCancelled, db)"
    by (auto simp: cancelOrder_def rollback_def)
next
  fix ok db'
  assume "cancelOrder db uid oid = (Inr ok, db')"
  from cancelOrder_Inr [OF this]
  show "\<exists>found rest. select_order (orders db) oid uid = found # rest \<and>
          order_status found \<in> {Placed, Confirmed}"
    by auto
next
  fix result db' i
  assume "distinct (map order_id (orders db)) \<and> cancelOrder db uid oid = (result, db') \<and>
      i < length (orders db) \<and> order_status (orders db' ! i) = Cancelled"
  then show "order_status (orders db ! i) \<in> {Placed, Confirmed, Cancelled}"
    by (intro cancelOrder_cancels_only_early_orders [of db uid oid result db' i]) simp_all
qed

theorem cancelOrder_refuses_late_stages_witness:
  "select_order (orders shop_shipped) 1 2 = [hd (orders shop_shipped)] \<and>
   order_status (hd (orders shop_shipped)) = Shipped \<and>
   cancelOrder shop_shipped 2 1 = (Inl OrderCannotBeCancelled, shop_shipped) \<and>
   http_status OrderCannotBeCancelled = 400 \<and>
   select_order (orders shop_paid) 1 2 = [hd (orders shop_paid)] \<and>
   order_status (hd (orders shop_paid)) = Confirmed \<and>
   fst (cancelOrder shop_paid 2 1) = Inr OrderCancelled \<and>
   distinct (map order_id (orders shop_paid)) \<and>
   order_status (orders (snd (cancelOrder shop_paid 2 1)) ! 0) = Cancelled \<and>
   order_status (orders shop_paid ! 0) = Confirmed"
proof -
  have sel: "select_order (orders shop_shipped) 1 2 = [hd (orders shop_shipped)]"
    and st: "order_status (hd (orders shop_shipped)) = Shipped"
    by (simp_all add: shop_shipped_eval select_order_def)
  have sel': "select_order (orders shop_paid) 1 2 = [hd (orders shop_paid)]"
    and st': "order_status (hd (orders shop_paid)) = Confirmed"
    by (simp_all add: shop_paid_eval select_order_def)
  have ok: "fst (cancelOrder shop_paid 2 1) = Inr OrderCancelled"
    using sel' st' by (simp add: cancelOrder_def commit_def)
  have more: "distinct (map order_id (orders shop_paid))"
    "order_status (orders (snd (cancelOrder shop_paid 2 1)) ! 0) = Cancelled"
    "order_status (orders shop_paid ! 0) = Confirmed"
    using sel' st'
    by (simp_all add: cancelOrder_def commit_def shop_paid_eval update_order_status_def)
  from sel st
    cancelOrder_refuses_late_stages
      [where db = shop_shipped and oid = 1 and uid = 2 and orderData = "hd (orders shop_shipped)"
         and others = "[]"]
  have "cancelOrder shop_shipped 2 1 = (Inl OrderCannotBeCancelled, shop_shipped)"
    by simp
  with sel st sel' st' ok more show ?thesis by simp
qed

text \<open>
  \<^bold>\<open>C6.\<close> With a signature that matches, \<open>verifyPayment\<close> succeeds, and a second call
  with the same arguments on the database the first one left succeeds again and leaves
  that database as it is.
\<close>

theorem verifyPayment_idempotent:
  assumes "hmac_sha256_hex (RAZORPAY_KEY_SECRET env)
             (razorpay_order_id body @ ''|'' @ razorpay_payment_id body) = razorpay_signature body"
  shows "fst (verifyPayment hmac_sha256_hex env db uid body) = Inr PaymentVerified \<and>
         verifyPayment hmac_sha256_hex env (snd (verifyPayment hmac_sha256_hex env db uid body)) uid body
           = (Inr PaymentVerified, snd (verifyPayment hmac_sha256_hex env db uid body))"
  using assms by (simp add: verifyPayment_def update_order_payment_idem)

theorem verifyPayment_idempotent_witness:
  "toy_hmac (RAZORPAY_KEY_SECRET test_env)
      (razorpay_order_id good_callback @ ''|'' @ razorpay_payment_id good_callback)
     = razorpay_signature good_callback \<and>
   verifyPayment toy_hmac test_env shop_ordered 2 good_callback = (Inr PaymentVerified, shop_paid) \<and>
   verifyPayment toy_hmac test_env shop_paid 2 good_callback = (Inr PaymentVerified, shop_paid) \<and>
   map payment_status (orders shop_paid) = [Completed] \<and>
   shop_paid \<noteq> shop_ordered"
proof -
  have good: "toy_hmac (RAZORPAY_KEY_SECRET test_env)
      (razorpay_order_id good_callback @ ''|'' @ razorpay_payment_id good_callback)
     = razorpay_signature good_callback"
    by (simp add: toy_hmac_def test_env_def good_callback_def)
  have once: "verifyPayment toy_hmac test_env shop_ordered 2 good_callback = (Inr PaymentVerified, shop_paid)"
    using good by (simp add: shop_paid_def verifyPayment_def)
  from good once verifyPayment_idempotent
         [where hmac_sha256_hex = toy_hmac and env = test_env and body = good_callback
            and db = shop_ordered and uid = 2]
  have "verifyPayment toy_hmac test_env shop_paid 2 good_callback = (Inr PaymentVerified, shop_paid)"
    by simp
  moreover have "shop_paid \<noteq> shop_ordered"
    by (simp add: shop_paid_eval shop_ordered_eval)
  ultimately show ?thesis using good once by (simp add: shop_paid_eval)
qed

text \<open>
  \<^bold>\<open>C7.\<close> When the signature sent differs from the HMAC, under the key secret, of the
  gateway order reference and the payment reference joined by \<open>|\<close>, \<open>verifyPayment\<close>
  answers \<open>InvalidPaymentSignature\<close> and the database, with every order's
  \<open>payment_status\<close> and \<open>order_status\<close>, is unchanged.
\<close>

theorem verifyPayment_bad_signature_changes_nothing:
  assumes "hmac_sha256_hex (RAZORPAY_KEY_SECRET env)
             (razorpay_order_id body @ ''|'' @ razorpay_payment_id body) \<noteq> razorpay_signature body"
  shows "verifyPayment hmac_sha256_hex env db uid body = (Inl InvalidPaymentSignature, db)"
  using assms by (simp add: verifyPayment_def)

theorem verifyPayment_bad_signature_changes_nothing_witness:
  "toy_hmac (RAZORPAY_KEY_SECRET test_env)
      (razorpay_order_id forged_callback @ ''|'' @ razorpay_payment_id forged_callback)
     \<noteq> razorpay_signature forged_callback \<and>
   verifyPayment toy_hmac test_env shop_ordered 2 forged_callback
     = (Inl InvalidPaymentSignature, shop_ordered) \<and>
   map payment_status (orders shop_ordered) = [Pending] \<and>
   map order_status (orders shop_ordered) = [Placed]"
proof -
  have bad: "toy_hmac (RAZORPAY_KEY_SECRET test_env)
      (razorpay_order_id forged_callback @ ''|'' @ razorpay_payment_id forged_callback)
     \<noteq> razorpay_signature forged_callback"
    by (simp add: toy_hmac_def test_env_def forged_callback_def good_callback_def)
  from bad verifyPayment_bad_signature_changes_nothing
         [where hmac_sha256_hex = toy_hmac and env = test_env and body = forged_callback
            and db = shop_ordered and uid = 2]
  show ?thesis by (simp add: shop_ordered_eval)
qed

text \<open>
  \<^bold>\<open>C8.\<close> In a state the routes can reach, one more request (\<open>placeOrder\<close>,
  \<open>verifyPayment\<close>, \<open>cancelOrder\<close> or the admin status update) keeps every order row in
  its place with its id, and its \<open>payment_status\<close> either stays or moves from
  \<open>Pending\<close> to \<open>Completed\<close> or \<open>Failed\<close>. An order that is \<open>Completed\<close> is
  \<open>Completed\<close> after any number of further requests.
\<close>

theorem payment_status_only_moves_forward:
  assumes "reachable db"
  shows "(step db db' \<longrightarrow>
            length (orders db) \<le> length (orders db') \<and>
            (\<forall>i < length (orders db).
               order_id (orders db' ! i) = order_id (orders db ! i) \<and>
               payment_move_allowed (payment_status (orders db ! i)) (payment_status (orders db' ! i)))) \<and>
         (step\<^sup>*\<^sup>* db later \<longrightarrow>
            (\<forall>i < length (orders db).
               payment_status (orders db ! i) = Completed \<longrightarrow>
               i < length (orders later) \<and>
               order_id (orders later ! i) = order_id (orders db ! i) \<and>
               payment_status (orders later ! i) = Completed))"
proof (intro conjI impI allI)
  assume st: "step db db'"
  show "length (orders db) \<le> length (orders db')"
  proof (cases "orders db = []")
    case True
    then show ?thesis by simp
  next
    case False
    then have last: "length (orders db) - 1 < length (orders db)" by simp
    from step_orders_nth [OF st last]
    have "length (orders db) - 1 < length (orders db')" by simp
    with last show ?thesis by arith
  qed
next
  fix i
  assume st: "step db db'" and i: "i < length (orders db)"
  from step_orders_nth [OF st i]
  show "order_id (orders db' ! i) = order_id (orders db ! i)" by simp
next
  fix i
  assume st: "step db db'" and i: "i < length (orders db)"
  from i have "orders db ! i \<in> set (orders db)" by simp
  with reachable_payment_status [OF assms] have
    "payment_status (orders db ! i) = Pending \<or> payment_status (orders db ! i) = Completed"
    by blast
  with step_orders_nth [OF st i]
  show "payment_move_allowed (payment_status (orders db ! i)) (payment_status (orders db' ! i))"
    by (auto simp: payment_move_allowed_def)
next
  fix i
  assume "step\<^sup>*\<^sup>* db later" and "i < length (orders db)"
    and "payment_status (orders db ! i) = Completed"
  from steps_keep_completed [OF this]
  show "i < length (orders later)"
    and "order_id (orders later ! i) = order_id (orders db ! i)"
    and "payment_status (orders later ! i) = Completed"
    by simp_all
qed

theorem payment_status_only_moves_forward_witness:
  "reachable shop_ordered \<and>
   step shop_ordered shop_paid \<and>
   payment_status (orders shop_ordered ! 0) = Pending \<and>
   payment_status (orders shop_paid ! 0) = Completed \<and>
   payment_move_allowed (payment_status (orders shop_ordered ! 0))
     (payment_status (orders shop_paid ! 0)) \<and>
   reachable shop_paid \<and>
   step\<^sup>*\<^sup>* shop_paid shop_shipped \<and>
   payment_status (orders shop_shipped ! 0) = Completed"
proof -
  have "reachable shop"
    by (rule reachable_initial) (simp_all add: shop_def)
  moreover have s1: "step shop shop_ordered"
    unfolding shop_ordered_def by (rule step_placeOrder)
  ultimately have r1: "reachable shop_ordered"
    by (rule reachable_step)
  have s2: "step shop_ordered shop_paid"
    unfolding shop_paid_def by (rule step_verifyPayment)
  from r1 s2 have r2: "reachable shop_paid"
    by (rule reachable_step)
  have "step shop_paid shop_shipped"
    unfolding shop_shipped_def by (rule step_adminUpdateStatus)
  then have s3: "step\<^sup>*\<^sup>* shop_paid shop_shipped" by (rule r_into_rtranclp)
  have len1: "0 < length (orders shop_ordered)" and len2: "0 < length (orders shop_paid)"
    by (simp_all add: shop_ordered_eval shop_paid_eval)
  have p1: "payment_status (orders shop_ordered ! 0) = Pending"
    and p2: "payment_status (orders shop_paid ! 0) = Completed"
    by (simp_all add: shop_ordered_eval shop_paid_eval)
  from payment_status_only_moves_forward [OF r1, of shop_paid shop_ordered] s2 len1
  have mv: "payment_move_allowed (payment_status (orders shop_ordered ! 0))
     (payment_status (orders shop_paid ! 0))"
    by blast
  from payment_status_only_moves_forward [OF r2, of shop_paid shop_shipped] s3 len2 p2
  have "payment_status (orders shop_shipped ! 0) = Completed"
    by blast
  with r1 s2 p1 p2 mv r2 s3 show ?thesis by simp
qed

text \<open>
  \<^bold>\<open>C9.\<close> With a signature that matches and no order row for the pair of order id and
  user id (no such order, or another user's), \<open>verifyPayment\<close> still answers
  "Payment verified successfully", and the database is unchanged.
\<close>

theorem verifyPayment_unmatched_order_reports_success:
  assumes "hmac_sha256_hex (RAZORPAY_KEY_SECRET env)
             (razorpay_order_id body @ ''|'' @ razorpay_payment_id body) = razorpay_signature body"
    and "select_order (orders db) (cb_order_id body) uid = []"
  shows "verifyPayment hmac_sha256_hex env db uid body = (Inr PaymentVerified, db)"
  using assms by (simp add: verifyPayment_def update_order_payment_no_match)

theorem verifyPayment_unmatched_order_reports_success_witness:
  "toy_hmac (RAZORPAY_KEY_SECRET test_env)
      (razorpay_order_id good_callback @ ''|'' @ razorpay_payment_id good_callback)
     = razorpay_signature good_callback \<and>
   select_order (orders shop_ordered) (cb_order_id good_callback) 3 = [] \<and>
   verifyPayment toy_hmac test_env shop_ordered 3 good_callback = (Inr PaymentVerified, shop_ordered) \<and>
   select_order (orders shop) (cb_order_id good_callback) 2 = [] \<and>
   verifyPayment toy_hmac test_env shop 2 good_callback = (Inr PaymentVerified, shop)"
proof -
  have good: "toy_hmac (RAZORPAY_KEY_SECRET test_env)
      (razorpay_order_id good_callback @ ''|'' @ razorpay_payment_id good_callback)
     = razorpay_signature good_callback"
    by (simp add: toy_hmac_def test_env_def good_callback_def)
  have other: "select_order (orders shop_ordered) (cb_order_id good_callback) 3 = []"
    by (simp add: select_order_def shop_ordered_eval good_callback_def)
  have none: "select_order (orders shop) (cb_order_id good_callback) 2 = []"
    by (simp add: select_order_def shop_def)
  from good other none
    verifyPayment_unmatched_order_reports_success
      [where hmac_sha256_hex = toy_hmac and env = test_env and body = good_callback
         and db = shop_ordered and uid = 3]
    verifyPayment_unmatched_order_reports_success
      [where hmac_sha256_hex = toy_hmac and env = test_env and body = good_callback
         and db = shop and uid = 2]
  show ?thesis by simp
qed

text \<open>
  \<^bold>\<open>C10.\<close> A successful \<open>cancelOrder\<close> leaves the line items alone, changes nothing of
  an order row but \<open>order_status\<close> and nothing at all of the rows with another id, and
  changes nothing of a product row but \<open>stock\<close> and nothing at all of the products
  outside the order's line items. So \<open>payment_status\<close>, \<open>payment_id\<close>,
  \<open>total_amount\<close> and \<open>delivery_address\<close> stay as they were: a paid order stays
  \<open>Completed\<close>.
\<close>

theorem cancelOrder_writes_only_status_and_stock:
  assumes "cancelOrder db uid oid = (Inr ok, db')"
  shows "order_items db' = order_items db \<and>
         orders_auto_increment db' = orders_auto_increment db \<and>
         list_all2 (\<lambda>before after.
                      after = before\<lparr>order_status := order_status after\<rparr> \<and>
                      (order_id before \<noteq> oid \<longrightarrow> after = before))
           (orders db) (orders db') \<and>
         map payment_status (orders db') = map payment_status (orders db) \<and>
         map payment_id (orders db') = map payment_id (orders db) \<and>
         map total_amount (orders db') = map total_amount (orders db) \<and>
         map delivery_address (orders db') = map delivery_address (orders db) \<and>
         list_all2 (\<lambda>before after.
                      after = before\<lparr>stock := stock after\<rparr> \<and>
                      (product_id before \<notin>
                         oi_product_id ` set (select_order_items (order_items db) oid) \<longrightarrow>
                       after = before))
           (products db) (products db')"
proof -
  from cancelOrder_Inr [OF assms] have
    db': "db' = db\<lparr>products := restore_stock (products db) (select_order_items (order_items db) oid),
                    orders := update_order_status (orders db) Cancelled oid\<rparr>"
    by auto
  have os: "list_all2 (\<lambda>before after.
                      after = before\<lparr>order_status := order_status after\<rparr> \<and>
                      (order_id before \<noteq> oid \<longrightarrow> after = before))
           (orders db) (update_order_status (orders db) Cancelled oid)"
    unfolding update_order_status_def list_all2_map2
    by (rule list_all2_refl) simp
  have ps: "list_all2 (\<lambda>before after.
                      after = before\<lparr>stock := stock after\<rparr> \<and>
                      (product_id before \<notin>
                         oi_product_id ` set (select_order_items (order_items db) oid) \<longrightarrow>
                       after = before))
           (products db) (restore_stock (products db) (select_order_items (order_items db) oid))"
    unfolding restore_stock_closed list_all2_map2
    by (rule list_all2_refl) (simp add: item_quantity_absent)
  have cols: "map payment_status (update_order_status (orders db) Cancelled oid) = map payment_status (orders db)"
    "map payment_id (update_order_status (orders db) Cancelled oid) = map payment_id (orders db)"
    "map total_amount (update_order_status (orders db) Cancelled oid) = map total_amount (orders db)"
    "map delivery_address (update_order_status (orders db) Cancelled oid) = map delivery_address (orders db)"
    by (simp_all add: update_order_status_def)
  from db' os ps cols show ?thesis by simp
qed

theorem cancelOrder_writes_only_status_and_stock_witness:
  "cancelOrder shop_paid 2 1 =
     (Inr OrderCancelled,
      shop_paid\<lparr>products := [milk], orders := [(hd (orders shop_paid))\<lparr>order_status := Cancelled\<rparr>]\<rparr>) \<and>
   map payment_status (orders shop_paid) = [Completed] \<and>
   map payment_status (orders (snd (cancelOrder shop_paid 2 1))) = [Completed] \<and>
   map payment_id (orders (snd (cancelOrder shop_paid 2 1))) = [Some ''pay_9''] \<and>
   order_items (snd (cancelOrder shop_paid 2 1)) = order_items shop_paid"
proof -
  define cancelled where
    "cancelled = shop_paid\<lparr>products := [milk],
                   orders := [(hd (orders shop_paid))\<lparr>order_status := Cancelled\<rparr>]\<rparr>"
  have run: "cancelOrder shop_paid 2 1 = (Inr OrderCancelled, cancelled)"
    by (simp add: cancelled_def cancelOrder_def shop_paid_eval select_order_def
          select_order_items_def increment_stock_def update_order_status_def commit_def milk_def)
  note frame = cancelOrder_writes_only_status_and_stock [OF run]
  from frame have "map payment_status (orders cancelled) = map payment_status (orders shop_paid)"
    by blast
  moreover from frame have "map payment_id (orders cancelled) = map payment_id (orders shop_paid)"
    by blast
  moreover from frame have "order_items cancelled = order_items shop_paid"
    by blast
  ultimately show ?thesis
    unfolding run cancelled_def [symmetric] by (simp add: shop_paid_eval)
qed

end
